theory Spec2Isabelle
  imports Main "HOL-Library.Word"
begin

section \<open>The thumbnail-retrieval core of the marker editor\<close>

text \<open>
  The server-side thumbnail manager: the cache of thumbnails (class \<open>CacheMap\<close> and its two
  subclasses), the reader of Plex's \<open>index-sd.bif\<close> files (class \<open>BifThumbnailManager\<close>),
  the generator that runs ffmpeg (class \<open>FfmpegThumbnailManager\<close>) and the singleton
  \<open>ThumbnailManager.Create\<close>.

  Conventions of the embedding.
  \<^item> JavaScript numbers that the code only ever uses as integers (metadata ids, millisecond
    and second timestamps, frame indexes, ranks, ticks) are \<open>int\<close>. The one place where a
    non-integer value can arise, the division by an interval read from a file, is modelled by
    the type \<open>jsnum\<close> below.
  \<^item> A \<open>Buffer\<close> is a list of bytes.
  \<^item> A JavaScript object used as a dictionary with numeric keys is a map \<open>int \<rightharpoonup> 'v\<close>.
  \<^item> A thrown exception or a rejected promise is \<open>Inl\<close> of an \<open>error\<close>; every operation
    returns the state it leaves behind next to its result, because a JavaScript exception
    does not undo the mutations made before it.
  \<^item> Only \<open>Log.warn\<close> is modelled (as a list of \<open>warning\<close>s); \<open>Log.verbose\<close> and
    \<open>Log.tmi\<close> have no effect on any value and are left out.
\<close>

subsection \<open>Values\<close>

type_synonym Buffer = "8 word list"

text \<open>A file-system path is the list of its segments; \<open>path.join\<close> appends segments.\<close>

type_synonym fspath = "string list"

datatype exec_failure = TimedOut | ExitedWithError | SpawnFailed

datatype error =
    ReadFailed              \<comment> \<open>\<open>reject('Failed to read thumbnail file')\<close>\<close>
  | UnexpectedContents      \<comment> \<open>\<open>reject('Unexpected thumbnail file contents')\<close>\<close>
  | NoThumbnails int        \<comment> \<open>\<open>throw new ServerError(`No thumbnails for ${metadataId}`)\<close>\<close>
  | BufferRangeError        \<comment> \<open>thrown by \<open>readInt32LE\<close>, \<open>Buffer.alloc\<close> and \<open>copy\<close>\<close>
  | JsTypeError             \<comment> \<open>thrown by \<open>path.join\<close> on a segment that is not a string\<close>
  | DatabaseError           \<comment> \<open>the promise of \<open>database.all\<close> rejected\<close>
  | FilesystemError         \<comment> \<open>thrown by \<open>readFileSync\<close> and \<open>mkdirSync\<close>\<close>
  | SubprocessFailure exec_failure \<comment> \<open>thrown by \<open>execFileSync\<close>\<close>

datatype warning =
    WarnCacheNotInitialized int  \<comment> \<open>\<open>CacheMap.add\<close> on an episode without an item entry\<close>
  | WarnBeyondMax                \<comment> \<open>request beyond the max timestamp\<close>
  | WarnNegative                 \<comment> \<open>negative thumbnail request\<close>
  | WarnAlreadyInitialized       \<comment> \<open>\<open>ThumbnailManager.Create\<close> called on an initialized manager\<close>

subsection \<open>The thumbnail cache: classes \<open>CachedThumbnail\<close>, \<open>MediaItemCache\<close>, \<open>CacheMap\<close>\<close>

record CachedThumbnail =
  data :: Buffer
  rank :: int

record MediaItemCache =
  hasThumbs :: bool
  cachedThumbnails :: "int \<rightharpoonup> CachedThumbnail"

record BifMediaItemCache = MediaItemCache +
  bifPath :: fspath
  interval :: int

record FfmpegMediaItemCache = MediaItemCache +
  filePath :: fspath
  duration :: int

record 'a CacheMap =
  maxCache :: int
  tick :: int
  maxTick :: int
  cacheMap :: "int \<rightharpoonup> 'a MediaItemCache_scheme"

text \<open>\<open>constructor(maxCache)\<close>, with the field initialisers \<open>#tick = 0\<close>, \<open>#maxTick = 20\<close>,
  \<open>#cacheMap = {}\<close>.\<close>

definition newCacheMap :: "int \<Rightarrow> 'a CacheMap" where
  "newCacheMap maxCache' =
     \<lparr>maxCache = maxCache', tick = 0, maxTick = 20, cacheMap = Map.empty\<rparr>"

text \<open>\<open>_addItem(metadataId, episodeCache)\<close>.\<close>

definition CacheMap_addItem ::
  "'a CacheMap \<Rightarrow> int \<Rightarrow> 'a MediaItemCache_scheme \<Rightarrow> 'a CacheMap" where
  "CacheMap_addItem c metadataId episodeCache =
     c\<lparr>cacheMap := (cacheMap c)(metadataId \<mapsto> episodeCache)\<rparr>"

text \<open>\<open>getItem(metadataId)\<close>: the entry, or \<open>false\<close> (here \<open>None\<close>).\<close>

definition getItem :: "'a CacheMap \<Rightarrow> int \<Rightarrow> 'a MediaItemCache_scheme option" where
  "getItem c metadataId = cacheMap c metadataId"

text \<open>
  The body of the two nested loops of \<open>#touch\<close> for one item: every thumbnail's rank goes
  down by \<open>maxTick\<close>, and the thumbnail is deleted when the new rank is not positive.
\<close>

definition sweepThumbnails ::
  "int \<Rightarrow> (int \<rightharpoonup> CachedThumbnail) \<Rightarrow> (int \<rightharpoonup> CachedThumbnail)" where
  "sweepThumbnails mt thumbs =
     (\<lambda>thumb. case thumbs thumb of
        None \<Rightarrow> None
      | Some t \<Rightarrow> if rank t - mt \<le> 0 then None else Some (t\<lparr>rank := rank t - mt\<rparr>))"

definition sweepItem :: "int \<Rightarrow> 'a MediaItemCache_scheme \<Rightarrow> 'a MediaItemCache_scheme" where
  "sweepItem mt cacheItem =
     cacheItem\<lparr>cachedThumbnails := sweepThumbnails mt (cachedThumbnails cacheItem)\<rparr>"

text \<open>\<open>#touch()\<close>: \<open>if (++this.#tick != this.#maxTick) return;\<close> then the sweep.\<close>

definition touch :: "'a CacheMap \<Rightarrow> 'a CacheMap" where
  "touch c =
     (if tick c + 1 \<noteq> maxTick c then c\<lparr>tick := tick c + 1\<rparr>
      else c\<lparr>tick := 0,
             cacheMap := (\<lambda>metadataId. map_option (sweepItem (maxTick c)) (cacheMap c metadataId))\<rparr>)"

text \<open>
  \<open>add(metadataId, timestamp, buffer)\<close>. The assignment after \<open>#touch()\<close> reads
  \<open>this.#cacheMap[metadataId]\<close> again; \<open>#touch\<close> never removes an item (lemma
  \<open>touch_item\<close> below), so the entry is there.
\<close>

definition storeThumbnail ::
  "int \<Rightarrow> CachedThumbnail \<Rightarrow> 'a MediaItemCache_scheme \<Rightarrow> 'a MediaItemCache_scheme" where
  "storeThumbnail timestamp t cacheItem =
     cacheItem\<lparr>cachedThumbnails := (cachedThumbnails cacheItem)(timestamp \<mapsto> t)\<rparr>"

definition add :: "'a CacheMap \<Rightarrow> int \<Rightarrow> int \<Rightarrow> Buffer \<Rightarrow> warning list \<times> 'a CacheMap" where
  "add c metadataId timestamp buffer =
     (case cacheMap c metadataId of
        None \<Rightarrow> ([WarnCacheNotInitialized metadataId], c)
      | Some _ \<Rightarrow>
          (let c' = touch c
           in ([], c'\<lparr>cacheMap := (cacheMap c')(metadataId :=
                     map_option (storeThumbnail timestamp \<lparr>data = buffer, rank = maxCache c' + 1\<rparr>)
                       (cacheMap c' metadataId))\<rparr>)))"

text \<open>
  \<open>tryGet(metadataId, timestamp)\<close>: \<open>false\<close> (here \<open>None\<close>) without any effect when the
  item or the thumbnail is missing; otherwise the rank is reset first and \<open>#touch\<close> runs after.
\<close>

definition tryGet :: "'a CacheMap \<Rightarrow> int \<Rightarrow> int \<Rightarrow> Buffer option \<times> 'a CacheMap" where
  "tryGet c metadataId timestamp =
     (case cacheMap c metadataId of
        None \<Rightarrow> (None, c)
      | Some cacheItem \<Rightarrow>
          (case cachedThumbnails cacheItem timestamp of
             None \<Rightarrow> (None, c)
           | Some thumbEntry \<Rightarrow>
               (Some (data thumbEntry),
                touch (c\<lparr>cacheMap := (cacheMap c)(metadataId \<mapsto>
                   storeThumbnail timestamp (thumbEntry\<lparr>rank := maxCache c + 1\<rparr>) cacheItem)\<rparr>))))"

subsection \<open>Numbers and buffers of the JavaScript runtime\<close>

text \<open>
  The value of \<open>Math.floor(a / b)\<close> for integers \<open>a\<close> and \<open>b\<close>: JavaScript's division
  by zero gives an infinity or \<open>NaN\<close>, never an exception. (For integers below \<open>2^53\<close> the
  rounded quotient of the doubles has the floor of the exact quotient.)
\<close>

datatype jsnum = Fin int | PosInf | NegInf | NaN

definition floorDiv :: "int \<Rightarrow> int \<Rightarrow> jsnum" where
  "floorDiv a b =
     (if b = 0 then (if 0 < a then PosInf else if a < 0 then NegInf else NaN)
      else Fin (a div b))"

text \<open>\<open>x > m\<close> and \<open>x < m\<close> for a number \<open>x\<close> and an integer \<open>m\<close>; both are false on \<open>NaN\<close>.\<close>

fun jsGreater :: "jsnum \<Rightarrow> int \<Rightarrow> bool" where
  "jsGreater (Fin i) m = (m < i)"
| "jsGreater PosInf m = True"
| "jsGreater NegInf m = False"
| "jsGreater NaN m = False"

fun jsLess :: "jsnum \<Rightarrow> int \<Rightarrow> bool" where
  "jsLess (Fin i) m = (i < m)"
| "jsLess PosInf m = False"
| "jsLess NegInf m = True"
| "jsLess NaN m = False"

text \<open>
  Node's \<open>buf.readInt32LE(offset)\<close>: a \<open>RangeError\<close> unless the four bytes lie inside the
  buffer, else \<open>first + b1 * 2^8 + b2 * 2^16 + (last << 24)\<close>, where the shift is a signed
  32-bit one.
\<close>

definition readInt32LE :: "Buffer \<Rightarrow> int \<Rightarrow> error + int" where
  "readInt32LE buf offset =
     (if 0 \<le> offset \<and> offset + 4 \<le> int (length buf) then
        (let first = uint (buf ! nat offset);
             b1 = uint (buf ! nat (offset + 1));
             b2 = uint (buf ! nat (offset + 2));
             last = uint (buf ! nat (offset + 3))
         in Inr (first + b1 * 2 ^ 8 + b2 * 2 ^ 16 +
                 (if 128 \<le> last then last * 2 ^ 24 - 2 ^ 32 else last * 2 ^ 24)))
      else Inl BufferRangeError)"

text \<open>
  \<open>const thumbBuf = Buffer.alloc(thumbEnd - thumbStart); data.copy(thumbBuf, 0, thumbStart,
  thumbEnd)\<close>. \<open>Buffer.alloc\<close> throws on a negative size and zero-fills; \<open>copy\<close> throws
  when \<open>sourceStart\<close> is negative or beyond the source, and copies no further than the end of
  the source.
\<close>

definition copyRange :: "Buffer \<Rightarrow> int \<Rightarrow> int \<Rightarrow> error + Buffer" where
  "copyRange buf thumbStart thumbEnd =
     (if thumbEnd - thumbStart < 0 then Inl BufferRangeError
      else if thumbStart < 0 \<or> int (length buf) < thumbStart then Inl BufferRangeError
      else (let n = nat (thumbEnd - thumbStart);
                copied = take n (drop (nat thumbStart) buf)
            in Inr (copied @ replicate (n - length copied) 0)))"

text \<open>Template literals \<open>`${n}`\<close> of an integer: its decimal digits.\<close>

definition digitChar :: "nat \<Rightarrow> char" where
  "digitChar n = ''0123456789'' ! n"

function showNat :: "nat \<Rightarrow> string" where
  "showNat n = (if n < 10 then [digitChar n] else showNat (n div 10) @ [digitChar (n mod 10)])"
  by pat_completeness auto
termination
  by (relation "measure id") auto

declare showNat.simps [simp del]

definition showInt :: "int \<Rightarrow> string" where
  "showInt i = (if i < 0 then CHR ''-'' # showNat (nat (- i)) else showNat (nat i))"

subsection \<open>The parser of \<open>index-sd.bif\<close>: the callback of \<open>readFile\<close> in \<open>#readThumbnail\<close>\<close>

definition thumbnailCountOffset :: int where "thumbnailCountOffset = 0xC"
definition indexTableStart :: int where "indexTableStart = 0x40"
definition recordSize :: int where "recordSize = 0x8"
definition timestampSize :: int where "timestampSize = 0x4"

definition getOffset :: "Buffer \<Rightarrow> int \<Rightarrow> error + int" where
  "getOffset buf index = readInt32LE buf (indexTableStart + (index * recordSize) + timestampSize)"

definition getTimestamp :: "Buffer \<Rightarrow> int \<Rightarrow> error + int" where
  "getTimestamp buf index = readInt32LE buf (indexTableStart + (index * recordSize))"

text \<open>
  \<open>if (thumbCache.interval == 0) { ... }\<close>: the interval to use, given the cached one. The
  cached interval is only overwritten when both reads succeed and the first timestamp is 0.
\<close>

definition discoverInterval :: "Buffer \<Rightarrow> int \<Rightarrow> error + int" where
  "discoverInterval buf cachedInterval =
     (if cachedInterval = 0 then
        (case getTimestamp buf 0 of
           Inl e \<Rightarrow> Inl e
         | Inr verify \<Rightarrow> if verify \<noteq> 0 then Inl UnexpectedContents else getTimestamp buf 1)
      else Inr cachedInterval)"

text \<open>The two branches that bring \<open>index\<close> into range, with the warning each one logs.\<close>

definition clampIndex :: "jsnum \<Rightarrow> int \<Rightarrow> jsnum \<times> warning list" where
  "clampIndex index maxIndex =
     (if jsGreater index maxIndex then (Fin maxIndex, [WarnBeyondMax])
      else if jsLess index 0 then (Fin 0, [WarnNegative])
      else (index, []))"

text \<open>
  From \<open>const thumbStart = getOffset(index)\<close> to \<open>data.copy\<close>: the frame of a finite index,
  as (index, start, end, bytes).
\<close>

definition frameAt :: "Buffer \<Rightarrow> int \<Rightarrow> int \<Rightarrow> error + (int \<times> int \<times> int \<times> Buffer)" where
  "frameAt buf index maxIndex =
     (case getOffset buf index of
        Inl e \<Rightarrow> Inl e
      | Inr thumbStart \<Rightarrow>
          (case (if index = maxIndex then Inr (int (length buf)) else getOffset buf (index + 1)) of
             Inl e \<Rightarrow> Inl e
           | Inr thumbEnd \<Rightarrow>
               (case copyRange buf thumbStart thumbEnd of
                  Inl e \<Rightarrow> Inl e
                | Inr thumbBuf \<Rightarrow> Inr (index, thumbStart, thumbEnd, thumbBuf))))"

text \<open>
  The whole callback on the bytes of the file: the value of \<open>thumbCache.interval\<close> it leaves,
  the warnings it logs and the frame it resolves with (or the error it rejects or throws
  with). An index that is still not finite after the clamp (\<open>NaN\<close>, from \<open>0 / 0\<close>) makes
  \<open>getOffset\<close> throw.
\<close>

definition parseIndex ::
  "Buffer \<Rightarrow> int \<Rightarrow> int \<Rightarrow> int \<times> warning list \<times> (error + (int \<times> int \<times> int \<times> Buffer))" where
  "parseIndex buf cachedInterval timestamp =
     (case discoverInterval buf cachedInterval of
        Inl e \<Rightarrow> (cachedInterval, [], Inl e)
      | Inr iv \<Rightarrow>
          (case readInt32LE buf thumbnailCountOffset of
             Inl e \<Rightarrow> (iv, [], Inl e)
           | Inr thumbnailCount \<Rightarrow>
               (let maxIndex = thumbnailCount - 1;
                    clamped = clampIndex (floorDiv timestamp iv) maxIndex
                in (iv, snd clamped,
                    case fst clamped of
                      Fin index \<Rightarrow> frameAt buf index maxIndex
                    | _ \<Rightarrow> Inl BufferRangeError))))"

subsection \<open>The world outside: database, file system, configuration, ffmpeg\<close>

text \<open>
  The database answers the two queries of the managers (\<open>None\<close>: the query is rejected):
  the hashes of the media parts of an episode, and its files with their durations.
\<close>

record DatabaseWrapper =
  hashRows :: "int \<Rightarrow> string list option"
  fileRows :: "int \<Rightarrow> (fspath \<times> int) list option"

record fsfile =
  mtimeMs :: int
  contents :: Buffer

record ffmpeg_call =
  seekArg :: string       \<comment> \<open>the value of \<open>-ss\<close>\<close>
  inputArg :: fspath      \<comment> \<open>the value of \<open>-i\<close>\<close>
  outputArg :: fspath     \<comment> \<open>the last argument\<close>
  timeoutOpt :: int       \<comment> \<open>the \<open>timeout\<close> option of \<open>execFileSync\<close>, in milliseconds\<close>

text \<open>
  The configuration and the installed ffmpeg: what a run of ffmpeg does to the files and
  whether \<open>execFileSync\<close> throws for it (\<open>None\<close>: it returns).
\<close>

record env =
  usePreciseThumbnails :: bool
  projectRoot :: fspath
  ffmpeg :: "ffmpeg_call \<Rightarrow> (fspath \<rightharpoonup> fsfile) \<Rightarrow> exec_failure option \<times> (fspath \<rightharpoonup> fsfile)"

text \<open>
  The mutable world: the files, what was logged with \<open>Log.warn\<close>, the ffmpeg runs so far,
  and two counters of the probes made (calls of \<open>database.all\<close>; calls of \<open>statSync\<close> and
  \<open>existsSync\<close>).
\<close>

record world =
  files :: "fspath \<rightharpoonup> fsfile"
  logged :: "warning list"
  execLog :: "ffmpeg_call list"
  dbQueries :: nat
  fsProbes :: nat

definition probed :: "world \<Rightarrow> world" where
  "probed w = w\<lparr>fsProbes := Suc (fsProbes w)\<rparr>"

definition queried :: "world \<Rightarrow> world" where
  "queried w = w\<lparr>dbQueries := Suc (dbQueries w)\<rparr>"

definition warn :: "warning list \<Rightarrow> world \<Rightarrow> world" where
  "warn ws w = w\<lparr>logged := logged w @ ws\<rparr>"

text \<open>\<open>mkdirSync(p, { recursive : true })\<close> throws when a file is in the way.\<close>

definition mkdirSync :: "world \<Rightarrow> fspath \<Rightarrow> error + world" where
  "mkdirSync w p =
     (if list_ex (\<lambda>n. files w (take n p) \<noteq> None) [1..<Suc (length p)]
      then Inl FilesystemError else Inr w)"

definition readFileSync :: "world \<Rightarrow> fspath \<Rightarrow> error + Buffer" where
  "readFileSync w p = (case files w p of None \<Rightarrow> Inl FilesystemError | Some f \<Rightarrow> Inr (contents f))"

definition readFile :: "world \<Rightarrow> fspath \<Rightarrow> Buffer option" where
  "readFile w p = map_option contents (files w p)"

text \<open>\<open>statSync(p, { throwIfNoEntry : false })\<close> and \<open>existsSync(p)\<close>.\<close>

definition statSync :: "world \<Rightarrow> fspath \<Rightarrow> fsfile option" where
  "statSync w p = files w p"

definition existsSync :: "world \<Rightarrow> fspath \<Rightarrow> bool" where
  "existsSync w p = (files w p \<noteq> None)"

subsection \<open>Class \<open>BifThumbnailManager\<close>\<close>

record ThumbnailManager =
  database :: DatabaseWrapper

type_synonym BifCacheMap = "unit BifMediaItemCache_ext CacheMap"
type_synonym FfmpegCacheMap = "unit FfmpegMediaItemCache_ext CacheMap"

record BifThumbnailManager = ThumbnailManager +
  metadataPath :: fspath
  bifCache :: BifCacheMap

text \<open>\<open>constructor(db, metadataPath)\<close>, with \<open>new BifCacheMap(200)\<close>.\<close>

definition newBifThumbnailManager :: "DatabaseWrapper \<Rightarrow> fspath \<Rightarrow> BifThumbnailManager" where
  "newBifThumbnailManager db metadataPath' =
     \<lparr>database = db, metadataPath = metadataPath', bifCache = newCacheMap 200\<rparr>"

text \<open>\<open>BifCacheMap.addItem(metadataId, hasThumbs, bifPath = '')\<close>.\<close>

definition Bif_addItem :: "BifCacheMap \<Rightarrow> int \<Rightarrow> bool \<Rightarrow> fspath \<Rightarrow> BifCacheMap" where
  "Bif_addItem c metadataId hasThumbs' bifPath' =
     CacheMap_addItem c metadataId
       \<lparr>hasThumbs = hasThumbs', cachedThumbnails = Map.empty, bifPath = bifPath', interval = 0\<rparr>"

text \<open>
  The path of the index file of a media part. \<open>row.hash[0]\<close> of an empty hash is
  \<open>undefined\<close>, on which \<open>path.join\<close> throws.
\<close>

definition bifPathOf :: "fspath \<Rightarrow> string \<Rightarrow> error + fspath" where
  "bifPathOf metadataPath' hash =
     (case hash of
        [] \<Rightarrow> Inl JsTypeError
      | c # rest \<Rightarrow>
          Inr (metadataPath' @ [''Media'', ''localhost'', [c], rest @ ''.bundle'',
                                ''Contents'', ''Indexes'', ''index-sd.bif'']))"

record newestBif =
  path :: fspath
  mtime :: int
  found :: nat

text \<open>The loop \<open>for (const row of rows)\<close> of \<open>hasThumbnails\<close>.\<close>

fun findNewest ::
  "fspath \<Rightarrow> string list \<Rightarrow> newestBif \<Rightarrow> world \<Rightarrow> (error + newestBif) \<times> world" where
  "findNewest metadataPath' [] newest w = (Inr newest, w)"
| "findNewest metadataPath' (hash # rows) newest w =
     (case bifPathOf metadataPath' hash of
        Inl e \<Rightarrow> (Inl e, w)
      | Inr bifPath' \<Rightarrow>
          (case statSync w bifPath' of
             None \<Rightarrow> findNewest metadataPath' rows newest (probed w)
           | Some stats \<Rightarrow>
               findNewest metadataPath' rows
                 ((if mtime newest < mtimeMs stats
                   then newest\<lparr>path := bifPath', mtime := mtimeMs stats\<rparr>
                   else newest)\<lparr>found := Suc (found newest)\<rparr>)
                 (probed w)))"

definition Bif_hasThumbnails ::
  "BifThumbnailManager \<Rightarrow> world \<Rightarrow> int \<Rightarrow> (error + bool) \<times> BifThumbnailManager \<times> world" where
  "Bif_hasThumbnails m w metadataId =
     (case getItem (bifCache m) metadataId of
        Some cached \<Rightarrow> (Inr (hasThumbs cached), m, w)
      | None \<Rightarrow>
          (case hashRows (database m) metadataId of
             None \<Rightarrow> (Inl DatabaseError, m, queried w)
           | Some rows \<Rightarrow>
               (case findNewest (metadataPath m) rows \<lparr>path = [], mtime = 0, found = 0\<rparr> (queried w) of
                  (Inl e, w') \<Rightarrow> (Inl e, m, w')
                | (Inr newest, w') \<Rightarrow>
                    if 0 < length (path newest)
                    then (Inr True,
                          m\<lparr>bifCache := Bif_addItem (bifCache m) metadataId True (path newest)\<rparr>, w')
                    else (Inr False,
                          m\<lparr>bifCache := Bif_addItem (bifCache m) metadataId False []\<rparr>, w'))))"

text \<open>
  \<open>#readThumbnail(metadataId, timestamp)\<close>. The item is \<open>thumbCache\<close>; reading \<open>bifPath\<close>
  off a missing item gives \<open>undefined\<close>, on which \<open>readFile\<close> throws. The interval found
  by the parser is written into the item whether or not a frame comes out.
\<close>

definition Bif_readThumbnail ::
  "BifThumbnailManager \<Rightarrow> world \<Rightarrow> int \<Rightarrow> int \<Rightarrow> (error + Buffer) \<times> BifThumbnailManager \<times> world" where
  "Bif_readThumbnail m w metadataId timestamp =
     (case getItem (bifCache m) metadataId of
        None \<Rightarrow> (Inl JsTypeError, m, w)
      | Some thumbCache \<Rightarrow>
          (case readFile w (bifPath thumbCache) of
             None \<Rightarrow> (Inl ReadFailed, m, w)
           | Some buf \<Rightarrow>
               (case parseIndex buf (interval thumbCache) timestamp of
                  (iv, ws, frame) \<Rightarrow>
                    (let c1 = CacheMap_addItem (bifCache m) metadataId (thumbCache\<lparr>interval := iv\<rparr>)
                     in case frame of
                          Inl e \<Rightarrow> (Inl e, m\<lparr>bifCache := c1\<rparr>, warn ws w)
                        | Inr (index, thumbStart, thumbEnd, thumbBuf) \<Rightarrow>
                            (case add c1 metadataId index thumbBuf of
                               (ws', c2) \<Rightarrow>
                                 (Inr thumbBuf, m\<lparr>bifCache := c2\<rparr>, warn (ws @ ws') w))))))"

text \<open>
  \<open>#getThumbnailCore(metadataId, timestamp)\<close>, with the timestamp in seconds. A key that
  is not finite is in no cache.
\<close>

definition Bif_getThumbnailCore ::
  "BifThumbnailManager \<Rightarrow> world \<Rightarrow> int \<Rightarrow> int \<Rightarrow> (error + Buffer) \<times> BifThumbnailManager \<times> world" where
  "Bif_getThumbnailCore m w metadataId timestamp =
     (case getItem (bifCache m) metadataId of
        None \<Rightarrow> (Inl (NoThumbnails metadataId), m, w)
      | Some thumbCache \<Rightarrow>
          if \<not> hasThumbs thumbCache then (Inl (NoThumbnails metadataId), m, w)
          else if interval thumbCache \<noteq> 0 then
            (case floorDiv timestamp (interval thumbCache) of
               Fin index \<Rightarrow>
                 (case tryGet (bifCache m) metadataId index of
                    (Some cachedData, c') \<Rightarrow> (Inr cachedData, m\<lparr>bifCache := c'\<rparr>, w)
                  | (None, c') \<Rightarrow> Bif_readThumbnail (m\<lparr>bifCache := c'\<rparr>) w metadataId timestamp)
             | _ \<Rightarrow> Bif_readThumbnail m w metadataId timestamp)
          else Bif_readThumbnail m w metadataId timestamp)"

text \<open>\<open>getThumbnail(metadataId, timestamp)\<close>, with the timestamp in milliseconds.\<close>

definition Bif_getThumbnail ::
  "BifThumbnailManager \<Rightarrow> world \<Rightarrow> int \<Rightarrow> int \<Rightarrow> (error + Buffer) \<times> BifThumbnailManager \<times> world" where
  "Bif_getThumbnail m w metadataId timestamp =
     (let seconds = timestamp div 1000
      in case getItem (bifCache m) metadataId of
           Some _ \<Rightarrow> Bif_getThumbnailCore m w metadataId seconds
         | None \<Rightarrow>
             (case Bif_hasThumbnails m w metadataId of
                (Inl e, m', w') \<Rightarrow> (Inl e, m', w')
              | (Inr _, m', w') \<Rightarrow> Bif_getThumbnailCore m' w' metadataId seconds))"

subsection \<open>Class \<open>FfmpegThumbnailManager\<close>\<close>

record FfmpegThumbnailManager = ThumbnailManager +
  ffmpegCache :: FfmpegCacheMap

text \<open>\<open>constructor(db)\<close>, with \<open>#maxCache = 200\<close>.\<close>

definition newFfmpegThumbnailManager :: "DatabaseWrapper \<Rightarrow> FfmpegThumbnailManager" where
  "newFfmpegThumbnailManager db = \<lparr>database = db, ffmpegCache = newCacheMap 200\<rparr>"

text \<open>\<open>FfmpegCacheMap.addItem(metadataId, hasThumbs, filePath = '', duration = 0)\<close>.\<close>

definition Ffmpeg_addItem ::
  "FfmpegCacheMap \<Rightarrow> int \<Rightarrow> bool \<Rightarrow> fspath \<Rightarrow> int \<Rightarrow> FfmpegCacheMap" where
  "Ffmpeg_addItem c metadataId hasThumbs' filePath' duration' =
     CacheMap_addItem c metadataId
       \<lparr>hasThumbs = hasThumbs', cachedThumbnails = Map.empty,
        filePath = filePath', duration = duration'\<rparr>"

text \<open>The loop \<open>for (const file of rows)\<close> of \<open>hasThumbnails\<close>: the first file that exists.\<close>

fun findFile :: "(fspath \<times> int) list \<Rightarrow> world \<Rightarrow> (fspath \<times> int) option \<times> world" where
  "findFile [] w = (None, w)"
| "findFile (row # rows) w =
     (if existsSync w (fst row) then (Some row, probed w) else findFile rows (probed w))"

definition Ffmpeg_hasThumbnails ::
  "FfmpegThumbnailManager \<Rightarrow> world \<Rightarrow> int \<Rightarrow> (error + bool) \<times> FfmpegThumbnailManager \<times> world" where
  "Ffmpeg_hasThumbnails m w metadataId =
     (case getItem (ffmpegCache m) metadataId of
        Some cached \<Rightarrow> (Inr (hasThumbs cached), m, w)
      | None \<Rightarrow>
          (case fileRows (database m) metadataId of
             None \<Rightarrow> (Inl DatabaseError, m, queried w)
           | Some rows \<Rightarrow>
               (case findFile rows (queried w) of
                  (Some row, w') \<Rightarrow>
                    (Inr True,
                     m\<lparr>ffmpegCache := Ffmpeg_addItem (ffmpegCache m) metadataId True (fst row) (snd row)\<rparr>,
                     w')
                | (None, w') \<Rightarrow>
                    (Inr False,
                     m\<lparr>ffmpegCache := Ffmpeg_addItem (ffmpegCache m) metadataId False [] 0\<rparr>, w'))))"

text \<open>
  \<open>#fileCacheOrGenerate(metadataId, timestamp)\<close>. The arguments of ffmpeg that never change
  (\<open>-loglevel error -noaccurate_seek -vf scale=240:-1 -vframes 1 -y\<close>) are not recorded.
\<close>

definition savePathOf :: "env \<Rightarrow> int \<Rightarrow> fspath" where
  "savePathOf env metadataId = projectRoot env @ [''cache'', showInt metadataId]"

definition saveFileOf :: "env \<Rightarrow> int \<Rightarrow> int \<Rightarrow> fspath" where
  "saveFileOf env metadataId timestamp = savePathOf env metadataId @ [showInt timestamp @ ''.jpg'']"

definition cacheThumbnail ::
  "FfmpegThumbnailManager \<Rightarrow> world \<Rightarrow> int \<Rightarrow> int \<Rightarrow> Buffer \<Rightarrow>
   (error + Buffer) \<times> FfmpegThumbnailManager \<times> world" where
  "cacheThumbnail m w metadataId timestamp buf =
     (case add (ffmpegCache m) metadataId timestamp buf of
        (ws, c') \<Rightarrow> (Inr buf, m\<lparr>ffmpegCache := c'\<rparr>, warn ws w))"

definition Ffmpeg_fileCacheOrGenerate ::
  "env \<Rightarrow> FfmpegThumbnailManager \<Rightarrow> world \<Rightarrow> int \<Rightarrow> int \<Rightarrow>
   (error + Buffer) \<times> FfmpegThumbnailManager \<times> world" where
  "Ffmpeg_fileCacheOrGenerate env m w metadataId timestamp =
     (let savePath = savePathOf env metadataId;
          saveFile = saveFileOf env metadataId timestamp;
          w0 = probed w
      in if existsSync w saveFile then
           (case readFileSync w0 saveFile of
              Inl e \<Rightarrow> (Inl e, m, w0)
            | Inr buf \<Rightarrow> cacheThumbnail m w0 metadataId timestamp buf)
         else
           (case mkdirSync w0 savePath of
              Inl e \<Rightarrow> (Inl e, m, w0)
            | Inr w1 \<Rightarrow>
                (case getItem (ffmpegCache m) metadataId of
                   None \<Rightarrow> (Inl JsTypeError, m, w1)
                 | Some episodeCache \<Rightarrow>
                     (let call = \<lparr>seekArg = showInt timestamp @ ''ms'',
                                  inputArg = filePath episodeCache,
                                  outputArg = saveFile, timeoutOpt = 10000\<rparr>;
                          ran = ffmpeg env call (files w1);
                          w2 = w1\<lparr>files := snd ran, execLog := execLog w1 @ [call]\<rparr>
                      in case fst ran of
                           Some failure \<Rightarrow> (Inl (SubprocessFailure failure), m, w2)
                         | None \<Rightarrow>
                             (case readFileSync w2 saveFile of
                                Inl e \<Rightarrow> (Inl e, m, w2)
                              | Inr buf \<Rightarrow> cacheThumbnail m w2 metadataId timestamp buf)))))"

text \<open>
  The timestamp \<open>#getThumbnailCore\<close> works with:
  \<open>Math.round(Math.min(maxDuration - 1000, Math.floor(timestamp / 100) * 100))\<close>.
\<close>

definition roundedTimestamp :: "int \<Rightarrow> int \<Rightarrow> int" where
  "roundedTimestamp maxDuration timestamp = min (maxDuration - 1000) (timestamp div 100 * 100)"

definition Ffmpeg_getThumbnailCore ::
  "env \<Rightarrow> FfmpegThumbnailManager \<Rightarrow> world \<Rightarrow> int \<Rightarrow> int \<Rightarrow>
   (error + Buffer) \<times> FfmpegThumbnailManager \<times> world" where
  "Ffmpeg_getThumbnailCore env m w metadataId timestamp =
     (case getItem (ffmpegCache m) metadataId of
        None \<Rightarrow> (Inl (NoThumbnails metadataId), m, w)
      | Some item \<Rightarrow>
          if \<not> hasThumbs item then (Inl (NoThumbnails metadataId), m, w)
          else
            (let timestamp' = roundedTimestamp (duration item) timestamp
             in case tryGet (ffmpegCache m) metadataId timestamp' of
                  (Some cachedThumb, c') \<Rightarrow> (Inr cachedThumb, m\<lparr>ffmpegCache := c'\<rparr>, w)
                | (None, c') \<Rightarrow>
                    Ffmpeg_fileCacheOrGenerate env (m\<lparr>ffmpegCache := c'\<rparr>) w metadataId timestamp'))"

definition Ffmpeg_getThumbnail ::
  "env \<Rightarrow> FfmpegThumbnailManager \<Rightarrow> world \<Rightarrow> int \<Rightarrow> int \<Rightarrow>
   (error + Buffer) \<times> FfmpegThumbnailManager \<times> world" where
  "Ffmpeg_getThumbnail env m w metadataId timestamp =
     (case getItem (ffmpegCache m) metadataId of
        Some _ \<Rightarrow> Ffmpeg_getThumbnailCore env m w metadataId timestamp
      | None \<Rightarrow>
          (case Ffmpeg_hasThumbnails m w metadataId of
             (Inl e, m', w') \<Rightarrow> (Inl e, m', w')
           | (Inr _, m', w') \<Rightarrow> Ffmpeg_getThumbnailCore env m' w' metadataId timestamp))"

subsection \<open>The singleton: \<open>ThumbnailManager.Create\<close>\<close>

datatype manager = BifManager BifThumbnailManager | FfmpegManager FfmpegThumbnailManager

text \<open>
  The module variable \<open>Instance\<close>. An object is its serial number, given by \<open>new\<close>, and its
  fields; two references are the same object when the serial numbers agree.
\<close>

record singleton =
  Instance :: "(nat \<times> manager) option"
  constructed :: nat

definition Create ::
  "env \<Rightarrow> DatabaseWrapper \<Rightarrow> fspath \<Rightarrow> singleton \<Rightarrow> world \<Rightarrow> (nat \<times> manager) \<times> singleton \<times> world" where
  "Create env db metadataPath' s w =
     (let w' = (if Instance s \<noteq> None then warn [WarnAlreadyInitialized] w else w);
          made = (if usePreciseThumbnails env
                  then (constructed s, FfmpegManager (newFfmpegThumbnailManager db))
                  else (constructed s, BifManager (newBifThumbnailManager db metadataPath')))
      in (made, \<lparr>Instance = Some made, constructed = Suc (constructed s)\<rparr>, w'))"

subsection \<open>Histories of cache operations\<close>

text \<open>
  The operations that change a \<open>CacheMap\<close>, as data, so that properties of every sequence
  of them can be stated: \<open>add\<close> (the put), \<open>tryGet\<close>, the private \<open>#touch\<close> on its own, and
  \<open>_addItem\<close>.
\<close>

datatype 'a cache_op =
    Put int int Buffer
  | TryGet int int
  | Touch
  | AddItem int "'a MediaItemCache_scheme"

fun applyOp :: "'a CacheMap \<Rightarrow> 'a cache_op \<Rightarrow> 'a CacheMap" where
  "applyOp c (Put metadataId timestamp buffer) = snd (add c metadataId timestamp buffer)"
| "applyOp c (TryGet metadataId timestamp) = snd (tryGet c metadataId timestamp)"
| "applyOp c Touch = touch c"
| "applyOp c (AddItem metadataId episodeCache) = CacheMap_addItem c metadataId episodeCache"

fun run :: "'a CacheMap \<Rightarrow> 'a cache_op list \<Rightarrow> 'a CacheMap" where
  "run c [] = c"
| "run c (operation # ops) = run (applyOp c operation) ops"

text \<open>The thumbnail sub-entry of an episode at a key, if the cache holds one.\<close>

definition entryAt :: "'a CacheMap \<Rightarrow> int \<Rightarrow> int \<Rightarrow> CachedThumbnail option" where
  "entryAt c metadataId timestamp =
     (case cacheMap c metadataId of
        None \<Rightarrow> None
      | Some cacheItem \<Rightarrow> cachedThumbnails cacheItem timestamp)"

text \<open>
  Whether an operation, run in state \<open>c\<close>, reaches \<open>#touch\<close>: a put on an episode that has
  an item entry, a \<open>tryGet\<close> that finds its thumbnail, and \<open>#touch\<close> itself.
\<close>

fun touches :: "'a CacheMap \<Rightarrow> 'a cache_op \<Rightarrow> bool" where
  "touches c (Put metadataId timestamp buffer) = (cacheMap c metadataId \<noteq> None)"
| "touches c (TryGet metadataId timestamp) = (entryAt c metadataId timestamp \<noteq> None)"
| "touches c Touch = True"
| "touches c (AddItem metadataId episodeCache) = False"

fun touchCount :: "'a CacheMap \<Rightarrow> 'a cache_op list \<Rightarrow> nat" where
  "touchCount c [] = 0"
| "touchCount c (operation # ops) =
     (if touches c operation then 1 else 0) + touchCount (applyOp c operation) ops"

text \<open>Whether an operation addresses the sub-entry at a key, or replaces its whole item.\<close>

fun accesses :: "'a cache_op \<Rightarrow> int \<Rightarrow> int \<Rightarrow> bool" where
  "accesses (Put metadataId timestamp buffer) x k = (metadataId = x \<and> timestamp = k)"
| "accesses (TryGet metadataId timestamp) x k = (metadataId = x \<and> timestamp = k)"
| "accesses Touch x k = False"
| "accesses (AddItem metadataId episodeCache) x k = (metadataId = x)"

fun replacesItem :: "'a cache_op \<Rightarrow> int \<Rightarrow> bool" where
  "replacesItem (AddItem metadataId episodeCache) x = (metadataId = x)"
| "replacesItem _ x = False"

text \<open>One decay step on a sub-entry: the rank goes down by \<open>mt\<close>, or the entry goes.\<close>

definition decay :: "int \<Rightarrow> CachedThumbnail option \<Rightarrow> CachedThumbnail option" where
  "decay mt entry =
     (case entry of
        None \<Rightarrow> None
      | Some t \<Rightarrow> if rank t - mt \<le> 0 then None else Some (t\<lparr>rank := rank t - mt\<rparr>))"

subsection \<open>Example states\<close>

text \<open>
  A cache of capacity 200 with one episode and two thumbnails, and the history in which the
  thumbnail at key 1 is fetched twenty times.
\<close>

definition exampleCache :: "unit CacheMap" where
  "exampleCache =
     run (newCacheMap 200)
       [AddItem 7 \<lparr>hasThumbs = True, cachedThumbnails = Map.empty\<rparr>, Put 7 0 [1], Put 7 1 [2]]"

definition twentyGets :: "unit cache_op list" where
  "twentyGets = replicate 20 (TryGet 7 1)"

text \<open>
  Calls through the exported \<open>Instance\<close>: \<open>Thumbnails.hasThumbnails(metadataId)\<close>
  dispatches on the class of the active manager and updates it in place.
\<close>

definition Thumbnails_hasThumbnails ::
  "singleton \<Rightarrow> world \<Rightarrow> int \<Rightarrow> (error + bool) \<times> singleton \<times> world" where
  "Thumbnails_hasThumbnails s w metadataId =
     (case Instance s of
        None \<Rightarrow> (Inl JsTypeError, s, w)
      | Some (serial, BifManager m) \<Rightarrow>
          (case Bif_hasThumbnails m w metadataId of
             (r, m', w') \<Rightarrow> (r, s\<lparr>Instance := Some (serial, BifManager m')\<rparr>, w'))
      | Some (serial, FfmpegManager m) \<Rightarrow>
          (case Ffmpeg_hasThumbnails m w metadataId of
             (r, m', w') \<Rightarrow> (r, s\<lparr>Instance := Some (serial, FfmpegManager m')\<rparr>, w')))"

text \<open>The item entry of an episode in whichever cache a manager has, without its locator.\<close>

definition managerItem :: "manager \<Rightarrow> int \<Rightarrow> MediaItemCache option" where
  "managerItem mgr metadataId =
     (case mgr of
        BifManager m \<Rightarrow> map_option MediaItemCache.truncate (getItem (bifCache m) metadataId)
      | FfmpegManager m \<Rightarrow> map_option MediaItemCache.truncate (getItem (ffmpegCache m) metadataId))"

text \<open>
  Index files. \<open>scenarioFile\<close> is 0x3000 bytes long, counts 3 thumbnails and has the record
  table (0, 0x40), (2, 0x1000), (4, 0x2000); the bytes from 0x1000 are 1 and those from
  0x2000 are 2. \<open>corruptFile\<close> is the same file with 5 as the first timestamp.
  \<open>zeroCountFile\<close> counts 0 thumbnails and has the records (0, 0x58), (2, 0x60).
\<close>

definition bifHeader :: "8 word \<Rightarrow> Buffer" where
  "bifHeader thumbnailCount =
     [0x89, 0x42, 0x49, 0x46, 0x0D, 0x0A, 0x1A, 0x0A] @ replicate 4 0 @
     [thumbnailCount, 0, 0, 0] @ replicate 48 0"

definition scenarioFile :: Buffer where
  "scenarioFile =
     bifHeader 3 @
     [0, 0, 0, 0, 0x40, 0, 0, 0,  2, 0, 0, 0, 0, 0x10, 0, 0,  4, 0, 0, 0, 0, 0x20, 0, 0] @
     replicate (0x1000 - 88) 0 @ replicate 0x1000 1 @ replicate 0x1000 2"

definition corruptFile :: Buffer where
  "corruptFile =
     bifHeader 3 @
     [5, 0, 0, 0, 0x40, 0, 0, 0,  2, 0, 0, 0, 0, 0x10, 0, 0,  4, 0, 0, 0, 0, 0x20, 0, 0] @
     replicate (0x1000 - 88) 0 @ replicate 0x1000 1 @ replicate 0x1000 2"

definition zeroCountFile :: Buffer where
  "zeroCountFile =
     bifHeader 0 @ [0, 0, 0, 0, 0x58, 0, 0, 0,  2, 0, 0, 0, 0x60, 0, 0, 0] @ replicate 32 7"

text \<open>
  A database that knows episode 1 (one media part with hash \<open>abcdef\<close>, one file of 60
  seconds), and worlds in which that part has a given index file and the media file exists.
\<close>

definition exampleDb :: DatabaseWrapper where
  "exampleDb =
     \<lparr>hashRows = (\<lambda>metadataId. if metadataId = 1 then Some [''abcdef''] else Some []),
      fileRows = (\<lambda>metadataId. if metadataId = 1 then Some [([''media'', ''ep1.mkv''], 60000)]
                                 else Some [])\<rparr>"

definition exampleBifPath :: fspath where
  "exampleBifPath =
     [''plex'', ''Media'', ''localhost'', ''a'', ''bcdef.bundle'', ''Contents'', ''Indexes'',
      ''index-sd.bif'']"

definition exampleWorld :: "Buffer \<Rightarrow> world" where
  "exampleWorld indexFile =
     \<lparr>files = [exampleBifPath \<mapsto> \<lparr>mtimeMs = 1000, contents = indexFile\<rparr>,
               [''media'', ''ep1.mkv''] \<mapsto> \<lparr>mtimeMs = 900, contents = []\<rparr>],
      logged = [], execLog = [], dbQueries = 0, fsProbes = 0\<rparr>"

definition exampleBifManager :: BifThumbnailManager where
  "exampleBifManager = newBifThumbnailManager exampleDb [''plex'']"

definition exampleFfmpegManager :: FfmpegThumbnailManager where
  "exampleFfmpegManager = newFfmpegThumbnailManager exampleDb"

text \<open>
  Two installations of ffmpeg: one that writes a four-byte image and returns, and one that
  has written the first two bytes of its output when the timeout of \<open>execFileSync\<close> kills it.
\<close>

definition exampleEnv :: env where
  "exampleEnv =
     \<lparr>usePreciseThumbnails = True, projectRoot = [''app''],
      ffmpeg = (\<lambda>call fs.
         (None, fs(outputArg call \<mapsto> \<lparr>mtimeMs = 2000, contents = [0xFF, 0xD8, 0xFF, 0xD9]\<rparr>)))\<rparr>"

definition stallingEnv :: env where
  "stallingEnv =
     \<lparr>usePreciseThumbnails = True, projectRoot = [''app''],
      ffmpeg = (\<lambda>call fs.
         (Some TimedOut, fs(outputArg call \<mapsto> \<lparr>mtimeMs = 2000, contents = [0xFF, 0xD8]\<rparr>)))\<rparr>"

text \<open>The state after one fetch with the stalling ffmpeg, and the fetch repeated in it.\<close>

definition afterStall :: "(error + Buffer) \<times> FfmpegThumbnailManager \<times> world" where
  "afterStall = Ffmpeg_getThumbnail stallingEnv exampleFfmpegManager (exampleWorld []) 1 5000"

definition afterRetry :: "(error + Buffer) \<times> FfmpegThumbnailManager \<times> world" where
  "afterRetry = Ffmpeg_getThumbnail stallingEnv (fst (snd afterStall)) (snd (snd afterStall)) 1 5000"

text \<open>
  \<open>Create\<close>, an existence check through the instance, and \<open>Create\<close> again.
\<close>

definition firstCreate :: "(nat \<times> manager) \<times> singleton \<times> world" where
  "firstCreate =
     Create exampleEnv exampleDb [''plex''] \<lparr>Instance = None, constructed = 0\<rparr> (exampleWorld [])"

definition afterCheck :: "(error + bool) \<times> singleton \<times> world" where
  "afterCheck = Thumbnails_hasThumbnails (fst (snd firstCreate)) (snd (snd firstCreate)) 1"

definition secondCreate :: "(nat \<times> manager) \<times> singleton \<times> world" where
  "secondCreate =
     Create exampleEnv exampleDb [''plex''] (fst (snd afterCheck)) (snd (snd afterCheck))"

text \<open>The manager and the world after the existence check of episode 1.\<close>

definition knownBifManager :: BifThumbnailManager where
  "knownBifManager =
     exampleBifManager\<lparr>bifCache := Bif_addItem (bifCache exampleBifManager) 1 True exampleBifPath\<rparr>"

definition probedWorld :: "Buffer \<Rightarrow> world" where
  "probedWorld indexFile = (exampleWorld indexFile)\<lparr>dbQueries := 1, fsProbes := 1\<rparr>"

definition knownFfmpegManager :: FfmpegThumbnailManager where
  "knownFfmpegManager =
     exampleFfmpegManager\<lparr>ffmpegCache :=
       Ffmpeg_addItem (ffmpegCache exampleFfmpegManager) 1 True [''media'', ''ep1.mkv''] 60000\<rparr>"

text \<open>The item entry that the active instance holds for an episode.\<close>

definition instanceItem :: "singleton \<Rightarrow> int \<Rightarrow> MediaItemCache option" where
  "instanceItem s metadataId =
     (case Instance s of
        None \<Rightarrow> None
      | Some (serial, mgr) \<Rightarrow> managerItem mgr metadataId)"

text \<open>The world that the stalling ffmpeg leaves behind after the fetch of episode 1 at 5000 ms.\<close>

definition stalledWorld :: world where
  "stalledWorld =
     \<lparr>files = [exampleBifPath \<mapsto> \<lparr>mtimeMs = 1000, contents = []\<rparr>,
               [''media'', ''ep1.mkv''] \<mapsto> \<lparr>mtimeMs = 900, contents = []\<rparr>,
               [''app'', ''cache'', ''1'', ''5000.jpg''] \<mapsto> \<lparr>mtimeMs = 2000, contents = [0xFF, 0xD8]\<rparr>],
      logged = [],
      execLog = [\<lparr>seekArg = ''5000ms'', inputArg = [''media'', ''ep1.mkv''],
                  outputArg = [''app'', ''cache'', ''1'', ''5000.jpg''], timeoutOpt = 10000\<rparr>],
      dbQueries = 1, fsProbes = 2\<rparr>"

section \<open>Properties of the cache\<close>

lemma touch_cacheMap:
  "cacheMap (touch c) i =
     (if tick c + 1 = maxTick c then map_option (sweepItem (maxTick c)) (cacheMap c i) else cacheMap c i)"
  by (simp add: touch_def)

lemma touch_entryAt:
  "entryAt (touch c) x k = (if tick c + 1 = maxTick c then decay (maxTick c) (entryAt c x k) else entryAt c x k)"
  by (auto simp: entryAt_def touch_def decay_def sweepItem_def sweepThumbnails_def split: option.splits)

lemma touch_tick: "tick (touch c) = (if tick c + 1 = maxTick c then 0 else tick c + 1)"
  by (simp add: touch_def)

lemma touch_consts: "maxTick (touch c) = maxTick c" "maxCache (touch c) = maxCache c"
  by (simp_all add: touch_def)

lemma touch_item:
  "cacheMap c i = Some item \<Longrightarrow>
   \<exists>item'. cacheMap (touch c) i = Some item' \<and> hasThumbs item' = hasThumbs item
      \<and> MediaItemCache.more item' = MediaItemCache.more item"
  by (simp add: touch_def sweepItem_def)

lemma add_absent: "cacheMap c i = None \<Longrightarrow> add c i t b = ([WarnCacheNotInitialized i], c)"
  by (simp add: add_def)

lemma add_present_entryAt:
  "cacheMap c i \<noteq> None \<Longrightarrow>
   entryAt (snd (add c i t b)) x k =
     (if x = i \<and> k = t then Some \<lparr>data = b, rank = maxCache c + 1\<rparr> else entryAt (touch c) x k)"
  by (auto simp: add_def Let_def entryAt_def storeThumbnail_def touch_cacheMap touch_consts split: option.splits)

lemma add_present_tick:
  "cacheMap c i \<noteq> None \<Longrightarrow> tick (snd (add c i t b)) = tick (touch c)"
  by (auto simp: add_def Let_def)

lemma add_consts: "maxTick (snd (add c i t b)) = maxTick c" "maxCache (snd (add c i t b)) = maxCache c"
  by (auto simp: add_def Let_def touch_consts split: option.splits)

lemma tryGet_miss: "entryAt c i t = None \<Longrightarrow> tryGet c i t = (None, c)"
  by (auto simp: tryGet_def entryAt_def split: option.splits)

lemma tryGet_hit_result: "entryAt c i t = Some th \<Longrightarrow> fst (tryGet c i t) = Some (data th)"
  by (auto simp: tryGet_def entryAt_def split: option.splits)

lemma tryGet_hit_tick:
  "entryAt c i t = Some th \<Longrightarrow>
   tick (snd (tryGet c i t)) = (if tick c + 1 = maxTick c then 0 else tick c + 1)"
  by (auto simp: tryGet_def entryAt_def touch_def split: option.splits)

lemma tryGet_consts:
  "maxTick (snd (tryGet c i t)) = maxTick c" "maxCache (snd (tryGet c i t)) = maxCache c"
  by (auto simp: tryGet_def touch_def split: option.splits)

lemma tryGet_hit_entryAt:
  "entryAt c i t = Some th \<Longrightarrow>
   entryAt (snd (tryGet c i t)) x k =
     (let before = (if x = i \<and> k = t then Some (th\<lparr>rank := maxCache c + 1\<rparr>) else entryAt c x k)
      in if tick c + 1 = maxTick c then decay (maxTick c) before else before)"
  by (auto simp: tryGet_def entryAt_def touch_def decay_def sweepItem_def sweepThumbnails_def
        storeThumbnail_def Let_def split: option.splits)

lemma applyOp_consts:
  "maxTick (applyOp c operation) = maxTick c" "maxCache (applyOp c operation) = maxCache c"
  by (cases operation; simp add: add_consts tryGet_consts touch_consts CacheMap_addItem_def)+

lemma applyOp_tick:
  "tick (applyOp c operation) =
     (if touches c operation then (if tick c + 1 = maxTick c then 0 else tick c + 1) else tick c)"
proof (cases operation)
  case (Put i t b)
  then show ?thesis
    by (cases "cacheMap c i") (simp_all add: add_absent add_present_tick touch_tick)
next
  case (TryGet i t)
  then show ?thesis
    by (cases "entryAt c i t") (simp_all add: tryGet_miss tryGet_hit_tick)
next
  case Touch
  then show ?thesis by (simp add: touch_tick)
next
  case (AddItem i item)
  then show ?thesis by (simp add: CacheMap_addItem_def)
qed

lemma applyOp_entryAt:
  assumes "\<not> accesses operation x k"
  shows "entryAt (applyOp c operation) x k =
     (if touches c operation \<and> tick c + 1 = maxTick c
      then decay (maxTick c) (entryAt c x k) else entryAt c x k)"
proof (cases operation)
  case (Put i t b)
  with assms show ?thesis
    by (cases "cacheMap c i") (auto simp: add_absent add_present_entryAt touch_entryAt)
next
  case (TryGet i t)
  with assms show ?thesis
    by (cases "entryAt c i t") (auto simp: tryGet_miss tryGet_hit_entryAt Let_def)
next
  case Touch
  then show ?thesis by (simp add: touch_entryAt)
next
  case (AddItem i item)
  with assms show ?thesis by (simp add: CacheMap_addItem_def entryAt_def)
qed

lemma run_ticks:
  assumes "maxTick c = 20" "0 \<le> tick c" "tick c < 20"
    and "\<forall>operation \<in> set ops. \<not> accesses operation x k"
    and "touchCount c ops \<le> 20"
  shows "tick (run c ops) = (tick c + int (touchCount c ops)) mod 20
       \<and> entryAt (run c ops) x k =
           (if tick c + int (touchCount c ops) < 20 then entryAt c x k
            else decay 20 (entryAt c x k))"
  using assms
proof (induction ops arbitrary: c)
  case Nil
  then show ?case by simp
next
  case (Cons operation ops)
  let ?c = "applyOp c operation"
  have mt: "maxTick ?c = 20" using Cons.prems(1) by (simp add: applyOp_consts)
  have na: "\<not> accesses operation x k" and rest: "\<forall>operation \<in> set ops. \<not> accesses operation x k"
    using Cons.prems(4) by simp_all
  have cnt: "touchCount ?c ops \<le> 20" using Cons.prems(5) by simp
  have tk: "tick ?c = (if touches c operation then (if tick c + 1 = 20 then 0 else tick c + 1) else tick c)"
    using Cons.prems(1) by (simp add: applyOp_tick)
  have rng: "0 \<le> tick ?c" "tick ?c < 20" using tk Cons.prems(2,3) by (auto split: if_splits)
  have en: "entryAt ?c x k =
     (if touches c operation \<and> tick c + 1 = 20 then decay 20 (entryAt c x k) else entryAt c x k)"
    using na Cons.prems(1) by (simp add: applyOp_entryAt)
  note IH = Cons.IH [OF mt rng rest cnt]
  show ?case
  proof (cases "touches c operation")
    case False
    with IH tk en show ?thesis by simp
  next
    case True
    show ?thesis
    proof (cases "tick c + 1 = 20")
      case False
      with True IH tk en show ?thesis by (simp add: ac_simps)
    next
      case sweep: True
      have "touchCount ?c ops < 20" using Cons.prems(5) True by simp
      with True sweep IH tk en Cons.prems(2,3) show ?thesis by simp
    qed
  qed
qed

lemmas cache_eval = newCacheMap_def CacheMap_addItem_def add_def tryGet_def touch_def
  storeThumbnail_def sweepItem_def sweepThumbnails_def entryAt_def Let_def

lemma applyOp_item:
  assumes "cacheMap c i = Some item" "\<not> replacesItem operation i"
  shows "\<exists>item'. cacheMap (applyOp c operation) i = Some item'
           \<and> hasThumbs item' = hasThumbs item
           \<and> MediaItemCache.more item' = MediaItemCache.more item"
proof (cases operation)
  case (Put j t b)
  obtain item' where 1: "cacheMap (touch c) i = Some item'" "hasThumbs item' = hasThumbs item"
      "MediaItemCache.more item' = MediaItemCache.more item"
    using touch_item [OF assms(1)] by blast
  show ?thesis
  proof (cases "cacheMap c j")
    case None
    with Put assms(1) show ?thesis by (simp add: add_absent)
  next
    case (Some other)
    with Put 1 show ?thesis
      by (cases "j = i") (simp_all add: add_def Let_def storeThumbnail_def)
  qed
next
  case (TryGet j t)
  show ?thesis
  proof (cases "entryAt c j t")
    case None
    with TryGet assms(1) show ?thesis by (simp add: tryGet_miss)
  next
    case (Some th)
    then obtain other where o: "cacheMap c j = Some other" "cachedThumbnails other t = Some th"
      by (auto simp: entryAt_def split: option.splits)
    with TryGet assms(1) show ?thesis
      by (cases "j = i") (simp_all add: tryGet_def touch_def sweepItem_def storeThumbnail_def)
  qed
next
  case Touch
  with touch_item [OF assms(1)] show ?thesis by simp
next
  case (AddItem j other)
  with assms show ?thesis by (simp add: CacheMap_addItem_def)
qed

lemma applyOp_present: "cacheMap c i \<noteq> None \<Longrightarrow> cacheMap (applyOp c operation) i \<noteq> None"
proof (cases "replacesItem operation i")
  case True
  then show ?thesis by (cases operation) (simp_all add: CacheMap_addItem_def)
next
  case False
  assume "cacheMap c i \<noteq> None"
  then obtain item where "cacheMap c i = Some item" by blast
  from applyOp_item [OF this False] show ?thesis by auto
qed

lemma run_present: "cacheMap c i \<noteq> None \<Longrightarrow> cacheMap (run c ops) i \<noteq> None"
proof (induction ops arbitrary: c)
  case Nil
  then show ?case by simp
next
  case (Cons operation ops)
  from Cons.prems have "cacheMap (applyOp c operation) i \<noteq> None" by (rule applyOp_present)
  from Cons.IH [OF this] show ?case by simp
qed

lemma run_item:
  assumes "cacheMap c i = Some item" "\<forall>operation \<in> set ops. \<not> replacesItem operation i"
  shows "\<exists>item'. cacheMap (run c ops) i = Some item'
           \<and> hasThumbs item' = hasThumbs item
           \<and> MediaItemCache.more item' = MediaItemCache.more item"
  using assms
proof (induction ops arbitrary: c item)
  case Nil
  then show ?case by simp
next
  case (Cons operation ops)
  from Cons.prems obtain item1 where 1: "cacheMap (applyOp c operation) i = Some item1"
      "hasThumbs item1 = hasThumbs item" "MediaItemCache.more item1 = MediaItemCache.more item"
    using applyOp_item [of c i item operation] by auto
  from Cons.IH [OF 1(1)] Cons.prems(2) 1(2,3) show ?case by auto
qed

subsection \<open>Adding a thumbnail for an unknown episode\<close>

text \<open>
  Claim C10. \<open>add(metadataId, timestamp, buffer)\<close> on a cache with no item entry for
  \<open>metadataId\<close> returns without throwing and leaves the whole cache as it was: no entry
  is created, no buffer is stored and the tick counter does not move. Its one effect is the
  line it logs with \<open>Log.warn\<close>.
\<close>

theorem add_without_item_is_noop:
  "getItem c metadataId = None \<Longrightarrow>
   add c metadataId timestamp buffer = ([WarnCacheNotInitialized metadataId], c)"
  by (simp add: getItem_def add_absent)

theorem add_without_item_is_noop_witness:
  "getItem (newCacheMap 200 :: unit CacheMap) 7 = None \<and>
   add (newCacheMap 200 :: unit CacheMap) 7 3000 [1, 2] = ([WarnCacheNotInitialized 7], newCacheMap 200)"
  using add_without_item_is_noop [of "newCacheMap 200 :: unit CacheMap" 7 3000 "[1, 2]"]
  by (simp add: getItem_def newCacheMap_def)

subsection \<open>Item entries stay\<close>

text \<open>
  Claim C9. After any sequence of cache operations (puts, \<open>tryGet\<close>s, sweeps, and
  \<open>_addItem\<close>s), an episode that had an item entry still has one; and when none of the
  operations is an \<open>_addItem\<close> for that very episode, the entry still carries the same
  \<open>hasThumbs\<close> flag and the same locator fields (everything but its thumbnails).
\<close>

theorem item_entries_never_removed:
  assumes "getItem c mediaId = Some item"
  shows "getItem (run c ops) mediaId \<noteq> None
       \<and> ((\<forall>operation \<in> set ops. \<not> replacesItem operation mediaId) \<longrightarrow>
            (\<exists>item'. getItem (run c ops) mediaId = Some item'
               \<and> hasThumbs item' = hasThumbs item
               \<and> MediaItemCache.more item' = MediaItemCache.more item))"
  using assms run_present [of c mediaId ops] run_item [of c mediaId item ops]
  by (simp add: getItem_def)

theorem item_entries_never_removed_witness:
  "map_option hasThumbs (getItem exampleCache 7) = Some True
   \<and> map_option hasThumbs (getItem (run exampleCache twentyGets) 7) = Some True"
proof -
  obtain item where item: "getItem exampleCache 7 = Some item" and flag: "hasThumbs item = True"
    by (simp add: exampleCache_def getItem_def cache_eval)
  have quiet: "\<forall>operation \<in> set twentyGets. \<not> replacesItem operation 7"
    by (simp add: twentyGets_def)
  from item_entries_never_removed [OF item, of twentyGets] quiet
  obtain item' where "getItem (run exampleCache twentyGets) 7 = Some item'"
      and "hasThumbs item' = hasThumbs item"
    by blast
  with item flag show ?thesis by simp
qed

subsection \<open>Ranks, ticks and the sweep\<close>

text \<open>
  Claim C4. In a cache with \<open>maxTick = 20\<close>:
  \<^item> a put on an episode with an item entry leaves the sub-entry it wrote with rank
    \<open>maxCache + 1\<close> and moves the tick counter on by one, back to 0 from 19; every other
    sub-entry is untouched, except that on the tick that reaches 20 it decays by 20 (and is
    deleted when that leaves a rank of 0 or less);
  \<^item> a \<open>tryGet\<close> that finds its sub-entry returns the data, sets the rank to
    \<open>maxCache + 1\<close> and moves the tick counter the same way; on the tick that reaches 20
    the sweep that follows decays every sub-entry, the one just read included;
  \<^item> hence after exactly 20 touches, none of them addressed to sub-entry X, an X that is
    still there has the data it had and a rank lower by exactly 20.
\<close>

theorem aging_cache_touch_and_decay:
  fixes c :: "'a CacheMap"
  assumes "maxTick c = 20"
  shows
    "(cacheMap c i \<noteq> None \<longrightarrow>
        entryAt (snd (add c i t b)) i t = Some \<lparr>data = b, rank = maxCache c + 1\<rparr>
      \<and> tick (snd (add c i t b)) = (if tick c + 1 = 20 then 0 else tick c + 1)
      \<and> (\<forall>x k. (x, k) \<noteq> (i, t) \<longrightarrow>
            entryAt (snd (add c i t b)) x k =
              (if tick c + 1 = 20 then decay 20 (entryAt c x k) else entryAt c x k)))
   \<and> (entryAt c i t = Some th \<longrightarrow>
        fst (tryGet c i t) = Some (data th)
      \<and> tick (snd (tryGet c i t)) = (if tick c + 1 = 20 then 0 else tick c + 1)
      \<and> entryAt (snd (tryGet c i t)) i t =
           (if tick c + 1 = 20 then decay 20 (Some (th\<lparr>rank := maxCache c + 1\<rparr>))
            else Some (th\<lparr>rank := maxCache c + 1\<rparr>))
      \<and> (\<forall>x k. (x, k) \<noteq> (i, t) \<longrightarrow>
            entryAt (snd (tryGet c i t)) x k =
              (if tick c + 1 = 20 then decay 20 (entryAt c x k) else entryAt c x k)))
   \<and> (0 \<le> tick c \<and> tick c < 20 \<and> touchCount c ops = 20
        \<and> (\<forall>operation \<in> set ops. \<not> accesses operation x' k')
        \<and> entryAt c x' k' = Some e \<and> entryAt (run c ops) x' k' = Some e'
      \<longrightarrow> rank e' = rank e - 20 \<and> data e' = data e)"
proof (intro conjI impI)
  assume p: "cacheMap c i \<noteq> None"
  show "entryAt (snd (add c i t b)) i t = Some \<lparr>data = b, rank = maxCache c + 1\<rparr>"
    using p by (simp add: add_present_entryAt)
  show "tick (snd (add c i t b)) = (if tick c + 1 = 20 then 0 else tick c + 1)"
    using p assms by (simp add: add_present_tick touch_tick)
  show "\<forall>x k. (x, k) \<noteq> (i, t) \<longrightarrow>
          entryAt (snd (add c i t b)) x k =
            (if tick c + 1 = 20 then decay 20 (entryAt c x k) else entryAt c x k)"
    using p assms by (auto simp: add_present_entryAt touch_entryAt)
next
  assume h: "entryAt c i t = Some th"
  show "fst (tryGet c i t) = Some (data th)"
    using h by (rule tryGet_hit_result)
  show "tick (snd (tryGet c i t)) = (if tick c + 1 = 20 then 0 else tick c + 1)"
    using h assms by (simp add: tryGet_hit_tick)
  show "entryAt (snd (tryGet c i t)) i t =
          (if tick c + 1 = 20 then decay 20 (Some (th\<lparr>rank := maxCache c + 1\<rparr>))
           else Some (th\<lparr>rank := maxCache c + 1\<rparr>))"
    using assms by (simp add: tryGet_hit_entryAt [OF h])
  show "\<forall>x k. (x, k) \<noteq> (i, t) \<longrightarrow>
          entryAt (snd (tryGet c i t)) x k =
            (if tick c + 1 = 20 then decay 20 (entryAt c x k) else entryAt c x k)"
    using assms by (auto simp: tryGet_hit_entryAt [OF h])
next
  assume a: "0 \<le> tick c \<and> tick c < 20 \<and> touchCount c ops = 20
        \<and> (\<forall>operation \<in> set ops. \<not> accesses operation x' k')
        \<and> entryAt c x' k' = Some e \<and> entryAt (run c ops) x' k' = Some e'"
  then have "entryAt (run c ops) x' k' = decay 20 (entryAt c x' k')"
    using run_ticks [of c ops x' k'] assms by simp
  moreover from a have "entryAt c x' k' = Some e" "entryAt (run c ops) x' k' = Some e'" by simp_all
  ultimately have d: "decay 20 (Some e) = Some e'" by simp
  from d show "rank e' = rank e - 20" by (auto simp: decay_def split: if_splits)
  from d show "data e' = data e" by (auto simp: decay_def split: if_splits)
qed

theorem aging_cache_touch_and_decay_witness:
  "maxTick exampleCache = 20 \<and> tick exampleCache = 2
   \<and> touchCount exampleCache twentyGets = 20
   \<and> entryAt exampleCache 7 0 = Some \<lparr>data = [1], rank = 201\<rparr>
   \<and> entryAt (run exampleCache twentyGets) 7 0 = Some \<lparr>data = [1], rank = 181\<rparr>
   \<and> entryAt (snd (add exampleCache 7 1 [9])) 7 1 = Some \<lparr>data = [9], rank = 201\<rparr>
   \<and> fst (tryGet exampleCache 7 1) = Some [2]"
proof -
  note ev = exampleCache_def twentyGets_def cache_eval numeral_eq_Suc
  have mt: "maxTick exampleCache = 20" and tk: "tick exampleCache = 2"
    by (simp_all add: ev)
  have cnt: "touchCount exampleCache twentyGets = 20"
    by (simp add: ev)
  have acc: "\<forall>operation \<in> set twentyGets. \<not> accesses operation 7 0"
    by (simp add: twentyGets_def)
  have x: "entryAt exampleCache 7 0 = Some \<lparr>data = [1], rank = 201\<rparr>"
    and y: "entryAt exampleCache 7 1 = Some \<lparr>data = [2], rank = 201\<rparr>"
    and present: "cacheMap exampleCache 7 \<noteq> None" and mc: "maxCache exampleCache = 200"
    by (simp_all add: ev)
  obtain e' where survives: "entryAt (run exampleCache twentyGets) 7 0 = Some e'"
    by (simp add: ev)
  note T = aging_cache_touch_and_decay [OF mt, where i = 7 and t = 1 and b = "[9]"
      and th = "\<lparr>data = [2], rank = 201\<rparr>" and ops = twentyGets and x' = 7 and k' = 0
      and e = "\<lparr>data = [1], rank = 201\<rparr>" and e' = e']
  from T tk cnt acc x survives have "rank e' = 181" and "data e' = [1]"
    by simp_all
  then have "e' = \<lparr>data = [1], rank = 181\<rparr>"
    by simp
  with survives have after: "entryAt (run exampleCache twentyGets) 7 0 = Some \<lparr>data = [1], rank = 181\<rparr>"
    by simp
  from T present mc have put: "entryAt (snd (add exampleCache 7 1 [9])) 7 1 = Some \<lparr>data = [9], rank = 201\<rparr>"
    by simp
  from T y have got: "fst (tryGet exampleCache 7 1) = Some [2]"
    by simp
  from mt tk cnt x after put got show ?thesis by simp
qed

section \<open>Properties of the index-backed source\<close>

lemma sc_len: "length scenarioFile = 0x3000" by (simp add: scenarioFile_def bifHeader_def)

lemmas parser_consts = thumbnailCountOffset_def indexTableStart_def recordSize_def timestampSize_def

lemma sc_fields:
  "readInt32LE scenarioFile thumbnailCountOffset = Inr 3"
  "getTimestamp scenarioFile 0 = Inr 0" "getOffset scenarioFile 0 = Inr 0x40"
  "getTimestamp scenarioFile 1 = Inr 2" "getOffset scenarioFile 1 = Inr 0x1000"
  "getTimestamp scenarioFile 2 = Inr 4" "getOffset scenarioFile 2 = Inr 0x2000"
  by (simp_all add: getTimestamp_def getOffset_def readInt32LE_def parser_consts scenarioFile_def bifHeader_def nth_append Let_def)

lemma sc_bytes: "take 0x1000 (drop 0x1000 scenarioFile) = replicate 0x1000 1"
  by (simp add: scenarioFile_def bifHeader_def)

lemma warn_nil: "warn [] w = w"
  by (simp add: warn_def)

lemma addItem_same: "cacheMap c i = Some item \<Longrightarrow> CacheMap_addItem c i item = c"
  by (simp add: CacheMap_addItem_def map_upd_triv)

lemma interval_same: "interval (item :: BifMediaItemCache) = iv \<Longrightarrow> item\<lparr>interval := iv\<rparr> = item"
  by (cases item) simp

lemma Bif_hasThumbnails_cached:
  "getItem (bifCache m) i = Some item \<Longrightarrow> Bif_hasThumbnails m w i = (Inr (hasThumbs item), m, w)"
  by (simp add: Bif_hasThumbnails_def)

lemma Bif_hasThumbnails_item:
  "Bif_hasThumbnails m w i = (Inr b, m1, w1) \<Longrightarrow>
   \<exists>item. getItem (bifCache m1) i = Some item \<and> hasThumbs item = b"
  by (auto simp: Bif_hasThumbnails_def Bif_addItem_def CacheMap_addItem_def getItem_def
      split: option.splits sum.splits prod.splits if_splits)

lemma Bif_getThumbnail_alt:
  "Bif_getThumbnail m w i t =
     (case Bif_hasThumbnails m w i of
        (Inl e, m', w') \<Rightarrow> (Inl e, m', w')
      | (Inr _, m', w') \<Rightarrow> Bif_getThumbnailCore m' w' i (t div 1000))"
proof (cases "getItem (bifCache m) i")
  case None
  then show ?thesis by (simp add: Bif_getThumbnail_def)
next
  case (Some item)
  then show ?thesis by (simp add: Bif_getThumbnail_def Bif_hasThumbnails_cached)
qed

lemma Bif_core_first_parse:
  assumes "getItem (bifCache m) i = Some thumbCache" "hasThumbs thumbCache" "interval thumbCache = 0"
  shows "Bif_getThumbnailCore m w i t = Bif_readThumbnail m w i t"
  using assms by (simp add: Bif_getThumbnailCore_def)

lemma parseIndex_corrupt:
  assumes "getTimestamp buf 0 = Inr first" "first \<noteq> 0"
  shows "parseIndex buf 0 t = (0, [], Inl UnexpectedContents)"
  using assms by (simp add: parseIndex_def discoverInterval_def)

subsection \<open>A corrupt index file\<close>

text \<open>
  Claim C2. A fetch that parses an index file for the first time (the interval of the episode
  is still unknown) and finds a first index record whose timestamp is not 0 rejects with
  \<open>'Unexpected thumbnail file contents'\<close>: no thumbnail comes back, and the manager and the
  world are as the existence check left them, so nothing was cached.
\<close>

theorem corrupt_index_rejected:
  assumes check: "Bif_hasThumbnails m w metadataId = (Inr True, m1, w1)"
    and item: "getItem (bifCache m1) metadataId = Some thumbCache"
    and first_parse: "interval thumbCache = 0"
    and readable: "readFile w1 (bifPath thumbCache) = Some buf"
    and first: "getTimestamp buf 0 = Inr firstTimestamp"
    and nonzero: "firstTimestamp \<noteq> 0"
  shows "Bif_getThumbnail m w metadataId timestamp = (Inl UnexpectedContents, m1, w1)"
proof -
  from Bif_hasThumbnails_item [OF check] item have thumbs: "hasThumbs thumbCache" by simp
  have "Bif_getThumbnail m w metadataId timestamp = Bif_readThumbnail m1 w1 metadataId (timestamp div 1000)"
    using check Bif_core_first_parse [OF item thumbs first_parse]
    by (simp add: Bif_getThumbnail_alt)
  also have "\<dots> = (Inl UnexpectedContents, m1, w1)"
    using item readable first_parse parseIndex_corrupt [OF first nonzero]
    by (simp add: Bif_readThumbnail_def warn_nil interval_same addItem_same getItem_def)
  finally show ?thesis .
qed

lemmas bif_eval = Bif_hasThumbnails_def getItem_def newBifThumbnailManager_def newCacheMap_def
  bifPathOf_def statSync_def probed_def queried_def Bif_addItem_def CacheMap_addItem_def

lemma example_check:
  "Bif_hasThumbnails exampleBifManager (exampleWorld buf) 1 =
     (Inr True, knownBifManager, probedWorld buf)"
  by (simp add: knownBifManager_def probedWorld_def exampleBifManager_def exampleWorld_def exampleDb_def exampleBifPath_def bif_eval)

lemma known_item:
  "getItem (bifCache knownBifManager) 1 =
     Some \<lparr>hasThumbs = True, cachedThumbnails = Map.empty, bifPath = exampleBifPath, interval = 0\<rparr>"
  by (simp add: knownBifManager_def exampleBifManager_def bif_eval)

lemma probed_readFile: "readFile (probedWorld buf) exampleBifPath = Some buf"
  by (simp add: readFile_def probedWorld_def exampleWorld_def exampleBifPath_def)

theorem corrupt_index_rejected_witness:
  "getTimestamp corruptFile 0 = Inr 5 \<and>
   Bif_getThumbnail exampleBifManager (exampleWorld corruptFile) 1 3500 =
     (Inl UnexpectedContents, knownBifManager, probedWorld corruptFile)"
proof -
  have first: "getTimestamp corruptFile 0 = Inr 5"
    by (simp add: getTimestamp_def readInt32LE_def parser_consts corruptFile_def bifHeader_def
        nth_append Let_def)
  have nonzero: "(5::int) \<noteq> 0" by simp
  have readable: "readFile (probedWorld corruptFile)
      (bifPath \<lparr>hasThumbs = True, cachedThumbnails = Map.empty, bifPath = exampleBifPath, interval = 0\<rparr>)
        = Some corruptFile"
    by (simp add: probed_readFile)
  from corrupt_index_rejected [OF example_check known_item _ readable first nonzero, of 3500] first
  show ?thesis by simp
qed

subsection \<open>Scenario A\<close>

lemma copyRange_inside:
  "0 \<le> a \<Longrightarrow> a \<le> b \<Longrightarrow> b \<le> int (length buf) \<Longrightarrow>
   copyRange buf a b = Inr (take (nat (b - a)) (drop (nat a) buf))"
proof -
  assume a: "0 \<le> a" and ab: "a \<le> b" and b: "b \<le> int (length buf)"
  have "length (take (nat (b - a)) (drop (nat a) buf)) = nat (b - a)"
    using a ab b by (simp add: min_def) linarith
  then show ?thesis
    using a ab b by (simp add: copyRange_def Let_def del: length_take)
qed

text \<open>
  Claim C1. The index file counts 3 thumbnails, has the record table (0, 0x40), (2, 0x1000),
  (4, 0x2000) and is 0x3000 bytes long, and the episode's interval has not been read yet.
  Then \<open>getThumbnail(id, 3500)\<close> parses with the timestamp 3 (whole seconds), finds the
  interval 2 in the second record, picks index 1 and resolves with exactly the bytes from
  0x1000 up to 0x2000, which it also caches under key 1 next to the interval 2.
\<close>

theorem scenario_A_index_backed_fetch:
  assumes check: "Bif_hasThumbnails m w metadataId = (Inr True, m1, w1)"
    and item: "getItem (bifCache m1) metadataId = Some thumbCache"
    and first_parse: "interval thumbCache = 0"
    and readable: "readFile w1 (bifPath thumbCache) = Some buf"
    and len: "length buf = 0x3000"
    and count: "readInt32LE buf thumbnailCountOffset = Inr 3"
    and record0: "getTimestamp buf 0 = Inr 0" "getOffset buf 0 = Inr 0x40"
    and record1: "getTimestamp buf 1 = Inr 2" "getOffset buf 1 = Inr 0x1000"
    and record2: "getTimestamp buf 2 = Inr 4" "getOffset buf 2 = Inr 0x2000"
  shows "parseIndex buf 0 (3500 div 1000) =
           (2, [], Inr (1, 0x1000, 0x2000, take 0x1000 (drop 0x1000 buf)))
       \<and> Bif_getThumbnail m w metadataId 3500 =
           (Inr (take 0x1000 (drop 0x1000 buf)),
            m1\<lparr>bifCache :=
                 snd (add (CacheMap_addItem (bifCache m1) metadataId (thumbCache\<lparr>interval := 2\<rparr>))
                        metadataId 1 (take 0x1000 (drop 0x1000 buf)))\<rparr>,
            w1)"
proof -
  from Bif_hasThumbnails_item [OF check] item have thumbs: "hasThumbs thumbCache" by simp
  have iv: "discoverInterval buf 0 = Inr 2"
    using record0(1) record1(1) by (simp add: discoverInterval_def)
  have bytes: "copyRange buf 0x1000 0x2000 = Inr (take 0x1000 (drop 0x1000 buf))"
    using copyRange_inside [of "0x1000" "0x2000" buf] len by simp
  have frame: "frameAt buf 1 2 = Inr (1, 0x1000, 0x2000, take 0x1000 (drop 0x1000 buf))"
    using record1(2) record2(2) bytes by (simp add: frameAt_def)
  have parse: "parseIndex buf 0 3 = (2, [], Inr (1, 0x1000, 0x2000, take 0x1000 (drop 0x1000 buf)))"
    using iv count frame by (simp add: parseIndex_def floorDiv_def clampIndex_def)
  have "Bif_getThumbnail m w metadataId 3500 = Bif_readThumbnail m1 w1 metadataId 3"
    using check Bif_core_first_parse [OF item thumbs first_parse]
    by (simp add: Bif_getThumbnail_alt)
  also have "\<dots> = (Inr (take 0x1000 (drop 0x1000 buf)),
            m1\<lparr>bifCache :=
                 snd (add (CacheMap_addItem (bifCache m1) metadataId (thumbCache\<lparr>interval := 2\<rparr>))
                        metadataId 1 (take 0x1000 (drop 0x1000 buf)))\<rparr>,
            w1)"
    using item readable first_parse parse
    by (simp add: Bif_readThumbnail_def add_def CacheMap_addItem_def Let_def warn_nil split: prod.splits)
  finally show ?thesis using parse by simp
qed

theorem scenario_A_index_backed_fetch_witness:
  "length scenarioFile = 0x3000 \<and>
   fst (Bif_getThumbnail exampleBifManager (exampleWorld scenarioFile) 1 3500) =
     Inr (replicate 0x1000 1) \<and>
   map_option interval
     (getItem (bifCache (fst (snd (Bif_getThumbnail exampleBifManager (exampleWorld scenarioFile) 1 3500)))) 1)
     = Some 2 \<and>
   entryAt (bifCache (fst (snd (Bif_getThumbnail exampleBifManager (exampleWorld scenarioFile) 1 3500)))) 1 1
     = Some \<lparr>data = replicate 0x1000 1, rank = 201\<rparr>"
proof -
  have readable: "readFile (probedWorld scenarioFile)
      (bifPath \<lparr>hasThumbs = True, cachedThumbnails = Map.empty, bifPath = exampleBifPath, interval = 0\<rparr>)
        = Some scenarioFile"
    by (simp add: probed_readFile)
  note T = scenario_A_index_backed_fetch [OF example_check known_item _ readable sc_len sc_fields]
  have T': "Bif_getThumbnail exampleBifManager (exampleWorld scenarioFile) 1 3500 =
      (Inr (replicate 0x1000 1),
       knownBifManager\<lparr>bifCache :=
          snd (add (CacheMap_addItem (bifCache knownBifManager) 1
                 \<lparr>hasThumbs = True, cachedThumbnails = Map.empty, bifPath = exampleBifPath, interval = 2\<rparr>)
               1 1 (replicate 0x1000 1))\<rparr>,
       probedWorld scenarioFile)"
    using T by (simp add: sc_bytes)
  show ?thesis
    unfolding T'
    by (simp add: sc_len knownBifManager_def exampleBifManager_def newBifThumbnailManager_def
        Bif_addItem_def getItem_def cache_eval)
qed

subsection \<open>Requests outside the index table\<close>

lemma clamp_high:
  "1 \<le> N \<Longrightarrow> jsGreater idx (N - 1) \<Longrightarrow> fst (clampIndex idx (N - 1)) = Fin (N - 1)"
  by (simp add: clampIndex_def)

lemma clamp_last: "1 \<le> N \<Longrightarrow> fst (clampIndex (Fin (N - 1)) (N - 1)) = Fin (N - 1)"
  by (simp add: clampIndex_def)

lemma clamp_low: "1 \<le> N \<Longrightarrow> jsLess idx 0 \<Longrightarrow> fst (clampIndex idx (N - 1)) = Fin 0"
  by (cases idx) (simp_all add: clampIndex_def)

lemma clamp_first: "1 \<le> N \<Longrightarrow> fst (clampIndex (Fin 0) (N - 1)) = Fin 0"
  by (simp add: clampIndex_def)

lemma parseIndex_frame:
  assumes "discoverInterval buf civ = Inr iv" "readInt32LE buf thumbnailCountOffset = Inr N"
  shows "fst (parseIndex buf civ t) = iv"
    and "snd (snd (parseIndex buf civ t)) =
          (case fst (clampIndex (floorDiv t iv) (N - 1)) of
             Fin index \<Rightarrow> frameAt buf index (N - 1) | _ \<Rightarrow> Inl BufferRangeError)"
  using assms by (simp_all add: parseIndex_def Let_def)

lemma Bif_readThumbnail_frame:
  assumes "fst (parseIndex buf civ t) = fst (parseIndex buf civ t')"
    and "snd (snd (parseIndex buf civ t)) = snd (snd (parseIndex buf civ t'))"
    and "getItem (bifCache m) i = Some thumbCache" "readFile w (bifPath thumbCache) = Some buf"
    and "interval thumbCache = civ"
  shows "fst (Bif_readThumbnail m w i t) = fst (Bif_readThumbnail m w i t')
       \<and> fst (snd (Bif_readThumbnail m w i t)) = fst (snd (Bif_readThumbnail m w i t'))"
proof -
  obtain iv ws fr where p: "parseIndex buf civ t = (iv, ws, fr)" by (cases "parseIndex buf civ t")
  obtain iv' ws' fr' where p': "parseIndex buf civ t' = (iv', ws', fr')" by (cases "parseIndex buf civ t'")
  from assms(1,2) p p' have eq: "iv' = iv" "fr' = fr" by simp_all
  show ?thesis
    using assms(3,4,5) p p' eq
    by (simp add: Bif_readThumbnail_def Let_def split: sum.splits prod.splits)
qed

text \<open>
  Claim C3, for index files that count at least one thumbnail. With \<open>N \<ge> 1\<close> the count
  of the file and \<open>iv\<close> the interval in force: a request whose computed index
  \<open>floor(t / iv)\<close> is above \<open>N - 1\<close> gets the frame, the result and the cache of a request
  whose computed index is \<open>N - 1\<close>, and a request whose computed index is negative gets
  those of a request whose computed index is 0.
\<close>

theorem clamp_out_of_range:
  assumes item: "getItem (bifCache m) metadataId = Some thumbCache"
    and readable: "readFile w (bifPath thumbCache) = Some buf"
    and count: "readInt32LE buf thumbnailCountOffset = Inr N"
    and frames: "1 \<le> N"
    and iv: "discoverInterval buf (interval thumbCache) = Inr iv"
  shows "(jsGreater (floorDiv t iv) (N - 1) \<and> floorDiv t' iv = Fin (N - 1) \<longrightarrow>
            snd (snd (parseIndex buf (interval thumbCache) t)) =
              snd (snd (parseIndex buf (interval thumbCache) t'))
          \<and> fst (Bif_readThumbnail m w metadataId t) = fst (Bif_readThumbnail m w metadataId t')
          \<and> fst (snd (Bif_readThumbnail m w metadataId t)) =
              fst (snd (Bif_readThumbnail m w metadataId t')))
       \<and> (jsLess (floorDiv t iv) 0 \<and> floorDiv t' iv = Fin 0 \<longrightarrow>
            snd (snd (parseIndex buf (interval thumbCache) t)) =
              snd (snd (parseIndex buf (interval thumbCache) t'))
          \<and> fst (Bif_readThumbnail m w metadataId t) = fst (Bif_readThumbnail m w metadataId t')
          \<and> fst (snd (Bif_readThumbnail m w metadataId t)) =
              fst (snd (Bif_readThumbnail m w metadataId t')))"
proof -
  note pf = parseIndex_frame [OF iv count]
  have same_iv: "fst (parseIndex buf (interval thumbCache) t) = fst (parseIndex buf (interval thumbCache) t')"
    by (simp add: pf(1))
  have high: "snd (snd (parseIndex buf (interval thumbCache) t)) =
              snd (snd (parseIndex buf (interval thumbCache) t'))"
    if "jsGreater (floorDiv t iv) (N - 1) \<and> floorDiv t' iv = Fin (N - 1)"
    using that frames by (simp add: pf(2) clamp_high clamp_last)
  have low: "snd (snd (parseIndex buf (interval thumbCache) t)) =
              snd (snd (parseIndex buf (interval thumbCache) t'))"
    if "jsLess (floorDiv t iv) 0 \<and> floorDiv t' iv = Fin 0"
    using that frames by (simp add: pf(2) clamp_low clamp_first)
  show ?thesis
    using high low Bif_readThumbnail_frame [OF same_iv _ item readable refl]
    by blast
qed

theorem clamp_out_of_range_witness:
  "readInt32LE scenarioFile thumbnailCountOffset = Inr 3
   \<and> floorDiv 100 2 = Fin 50 \<and> floorDiv 5 2 = Fin 2
   \<and> floorDiv (- 1) 2 = Fin (- 1) \<and> floorDiv 0 2 = Fin 0
   \<and> fst (Bif_readThumbnail knownBifManager (probedWorld scenarioFile) 1 100) =
       fst (Bif_readThumbnail knownBifManager (probedWorld scenarioFile) 1 5)
   \<and> fst (Bif_readThumbnail knownBifManager (probedWorld scenarioFile) 1 (- 1)) =
       fst (Bif_readThumbnail knownBifManager (probedWorld scenarioFile) 1 0)"
proof -
  have readable: "readFile (probedWorld scenarioFile)
      (bifPath \<lparr>hasThumbs = True, cachedThumbnails = Map.empty, bifPath = exampleBifPath, interval = 0\<rparr>)
        = Some scenarioFile"
    by (simp add: probed_readFile)
  have frames: "(1::int) \<le> 3" by simp
  have iv: "discoverInterval scenarioFile
      (interval \<lparr>hasThumbs = True, cachedThumbnails = Map.empty, bifPath = exampleBifPath, interval = 0\<rparr>)
        = Inr 2"
    by (simp add: discoverInterval_def sc_fields)
  have d: "floorDiv 100 2 = Fin 50" "floorDiv 5 2 = Fin 2" "floorDiv (- 1) 2 = Fin (- 1)"
      "floorDiv 0 2 = Fin 0"
    by (simp_all add: floorDiv_def)
  note T = clamp_out_of_range [OF known_item readable sc_fields(1) frames iv]
  from T [of 100 5] d have high:
    "fst (Bif_readThumbnail knownBifManager (probedWorld scenarioFile) 1 100) =
       fst (Bif_readThumbnail knownBifManager (probedWorld scenarioFile) 1 5)"
    by simp
  from T [of "- 1" 0] d have low:
    "fst (Bif_readThumbnail knownBifManager (probedWorld scenarioFile) 1 (- 1)) =
       fst (Bif_readThumbnail knownBifManager (probedWorld scenarioFile) 1 0)"
    by simp
  from high low d sc_fields(1) show ?thesis by simp
qed

text \<open>
  Claim C3 as stated, for every count, fails on a file that counts 0 thumbnails: there
  \<open>maxIndex\<close> is \<open>-1\<close>, the request with the negative index \<open>-1\<close> is moved to index 0 and
  gets the bytes from 0x58 up to 0x60, while the request with index 0 is moved to index
  \<open>-1\<close> and gets the whole file.
\<close>

lemma zc_eval:
  "readInt32LE zeroCountFile thumbnailCountOffset = Inr 0"
  "getTimestamp zeroCountFile 0 = Inr 0" "getTimestamp zeroCountFile 1 = Inr 2"
  "getOffset zeroCountFile 0 = Inr 0x58" "getOffset zeroCountFile 1 = Inr 0x60"
  "getOffset zeroCountFile (- 1) = Inr 0" "length zeroCountFile = 112"
  by (simp_all add: getTimestamp_def getOffset_def readInt32LE_def parser_consts zeroCountFile_def
      bifHeader_def nth_append Let_def)

theorem clamp_zero_count_counterexample:
  "readInt32LE zeroCountFile thumbnailCountOffset = Inr 0
   \<and> discoverInterval zeroCountFile 0 = Inr 2
   \<and> floorDiv (- 1) 2 = Fin (- 1) \<and> floorDiv 0 2 = Fin 0
   \<and> snd (snd (parseIndex zeroCountFile 0 (- 1))) = Inr (0, 0x58, 0x60, replicate 8 7)
   \<and> snd (snd (parseIndex zeroCountFile 0 0)) = Inr (- 1, 0, 112, zeroCountFile)
   \<and> snd (snd (parseIndex zeroCountFile 0 (- 1))) \<noteq> snd (snd (parseIndex zeroCountFile 0 0))"
proof -
  have iv: "discoverInterval zeroCountFile 0 = Inr 2"
    by (simp add: discoverInterval_def zc_eval)
  have d: "floorDiv (- 1) 2 = Fin (- 1)" "floorDiv 0 2 = Fin 0"
    by (simp_all add: floorDiv_def)
  have c0: "copyRange zeroCountFile 0x58 0x60 = Inr (replicate 8 7)"
    by (simp add: copyRange_def Let_def zeroCountFile_def bifHeader_def)
  have c1: "copyRange zeroCountFile 0 112 = Inr zeroCountFile"
    by (simp add: copyRange_def Let_def zc_eval)
  have neg: "snd (snd (parseIndex zeroCountFile 0 (- 1))) = Inr (0, 0x58, 0x60, replicate 8 7)"
    by (simp add: parseIndex_def iv zc_eval d clampIndex_def frameAt_def c0)
  have zero: "snd (snd (parseIndex zeroCountFile 0 0)) = Inr (- 1, 0, 112, zeroCountFile)"
    by (simp add: parseIndex_def iv zc_eval d clampIndex_def frameAt_def c1)
  from iv d neg zero zc_eval(1) show ?thesis by simp
qed

section \<open>Properties of the existence check, the on-demand source and the singleton\<close>

subsection \<open>The existence check is answered from the cache\<close>

lemma show59000: "showInt 59000 = ''59000''"
  by (simp add: showInt_def showNat.simps digitChar_def)

lemma findNewest_world:
  "findNewest mp rows newest w = (r, w') \<Longrightarrow>
   dbQueries w' = dbQueries w \<and> files w' = files w \<and> logged w' = logged w \<and> execLog w' = execLog w"
proof (induction rows arbitrary: newest w)
  case Nil
  then show ?case by auto
next
  case (Cons hash rows)
  show ?case
  proof (cases "bifPathOf mp hash")
    case (Inl e)
    with Cons.prems show ?thesis by auto
  next
    case (Inr p)
    show ?thesis
    proof (cases "statSync w p")
      case None
      with Inr Cons.prems have "findNewest mp rows newest (probed w) = (r, w')" by simp
      from Cons.IH [OF this] show ?thesis by (simp add: probed_def)
    next
      case (Some stats)
      with Inr Cons.prems obtain n' where "findNewest mp rows n' (probed w) = (r, w')" by simp
      from Cons.IH [OF this] show ?thesis by (simp add: probed_def)
    qed
  qed
qed

lemma findFile_world:
  "findFile rows w = (r, w') \<Longrightarrow>
   dbQueries w' = dbQueries w \<and> files w' = files w \<and> logged w' = logged w \<and> execLog w' = execLog w"
proof (induction rows arbitrary: w)
  case Nil
  then show ?case by auto
next
  case (Cons row rows)
  show ?case
  proof (cases "existsSync w (fst row)")
    case True
    with Cons.prems show ?thesis by (auto simp: probed_def)
  next
    case False
    with Cons.prems have "findFile rows (probed w) = (r, w')" by simp
    from Cons.IH [OF this] show ?thesis by (simp add: probed_def)
  qed
qed

lemma Bif_hasThumbnails_queries:
  "Bif_hasThumbnails m w i = (r, m1, w1) \<Longrightarrow> dbQueries w1 \<le> Suc (dbQueries w)"
  by (auto simp: Bif_hasThumbnails_def queried_def split: option.splits sum.splits prod.splits if_splits
      dest!: findNewest_world)

lemma Ffmpeg_hasThumbnails_cached:
  "getItem (ffmpegCache m) i = Some item \<Longrightarrow> Ffmpeg_hasThumbnails m w i = (Inr (hasThumbs item), m, w)"
  by (simp add: Ffmpeg_hasThumbnails_def)

lemma Ffmpeg_hasThumbnails_item:
  "Ffmpeg_hasThumbnails m w i = (Inr b, m1, w1) \<Longrightarrow>
   \<exists>item. getItem (ffmpegCache m1) i = Some item \<and> hasThumbs item = b"
  by (auto simp: Ffmpeg_hasThumbnails_def Ffmpeg_addItem_def CacheMap_addItem_def getItem_def
      split: option.splits sum.splits prod.splits if_splits)

lemma Ffmpeg_hasThumbnails_queries:
  "Ffmpeg_hasThumbnails m w i = (r, m1, w1) \<Longrightarrow> dbQueries w1 \<le> Suc (dbQueries w)"
  by (auto simp: Ffmpeg_hasThumbnails_def queried_def split: option.splits sum.splits prod.splits if_splits
      dest!: findFile_world)

text \<open>
  Claim C7. For both managers: when \<open>hasThumbnails(id)\<close> has returned a boolean, positive or
  negative, a second call made right after it returns the same boolean and leaves the manager
  and the world exactly as they were, so it makes no database query and no file-system
  probe: it is answered from the item entry that the first call stored. The first call
  makes at most one database query, so over the two calls the episode is probed at most
  once.
\<close>

theorem hasThumbnails_answers_from_cache:
  "(Bif_hasThumbnails m w metadataId = (Inr b, m1, w1) \<longrightarrow>
      Bif_hasThumbnails m1 w1 metadataId = (Inr b, m1, w1)
    \<and> dbQueries w1 \<le> Suc (dbQueries w))
 \<and> (Ffmpeg_hasThumbnails fm w metadataId = (Inr b', fm1, w1') \<longrightarrow>
      Ffmpeg_hasThumbnails fm1 w1' metadataId = (Inr b', fm1, w1')
    \<and> dbQueries w1' \<le> Suc (dbQueries w))"
proof (intro conjI impI)
  assume a: "Bif_hasThumbnails m w metadataId = (Inr b, m1, w1)"
  from Bif_hasThumbnails_item [OF a] obtain item
    where "getItem (bifCache m1) metadataId = Some item" "hasThumbs item = b" by blast
  then show "Bif_hasThumbnails m1 w1 metadataId = (Inr b, m1, w1)"
    by (simp add: Bif_hasThumbnails_cached)
  from a show "dbQueries w1 \<le> Suc (dbQueries w)" by (rule Bif_hasThumbnails_queries)
next
  assume a: "Ffmpeg_hasThumbnails fm w metadataId = (Inr b', fm1, w1')"
  from Ffmpeg_hasThumbnails_item [OF a] obtain item
    where "getItem (ffmpegCache fm1) metadataId = Some item" "hasThumbs item = b'" by blast
  then show "Ffmpeg_hasThumbnails fm1 w1' metadataId = (Inr b', fm1, w1')"
    by (simp add: Ffmpeg_hasThumbnails_cached)
  from a show "dbQueries w1' \<le> Suc (dbQueries w)" by (rule Ffmpeg_hasThumbnails_queries)
qed

lemmas ffmpeg_eval = Ffmpeg_hasThumbnails_def getItem_def newFfmpegThumbnailManager_def newCacheMap_def
  existsSync_def probed_def queried_def Ffmpeg_addItem_def CacheMap_addItem_def

lemma example_ffmpeg_check:
  "Ffmpeg_hasThumbnails exampleFfmpegManager (exampleWorld buf) 1 =
     (Inr True, knownFfmpegManager, probedWorld buf)"
  by (simp add: knownFfmpegManager_def probedWorld_def exampleFfmpegManager_def exampleWorld_def
      exampleDb_def exampleBifPath_def ffmpeg_eval)

theorem hasThumbnails_answers_from_cache_witness:
  "Bif_hasThumbnails exampleBifManager (exampleWorld scenarioFile) 1 =
     (Inr True, knownBifManager, probedWorld scenarioFile)
   \<and> Bif_hasThumbnails knownBifManager (probedWorld scenarioFile) 1 =
     (Inr True, knownBifManager, probedWorld scenarioFile)
   \<and> Ffmpeg_hasThumbnails exampleFfmpegManager (exampleWorld scenarioFile) 1 =
     (Inr True, knownFfmpegManager, probedWorld scenarioFile)
   \<and> Ffmpeg_hasThumbnails knownFfmpegManager (probedWorld scenarioFile) 1 =
     (Inr True, knownFfmpegManager, probedWorld scenarioFile)
   \<and> dbQueries (probedWorld scenarioFile) = 1 \<and> dbQueries (exampleWorld scenarioFile) = 0"
  using hasThumbnails_answers_from_cache [of exampleBifManager "exampleWorld scenarioFile" 1 True
      knownBifManager "probedWorld scenarioFile" exampleFfmpegManager True knownFfmpegManager
      "probedWorld scenarioFile"]
    example_check [of scenarioFile] example_ffmpeg_check [of scenarioFile]
  by (simp add: probedWorld_def exampleWorld_def)

subsection \<open>Scenario B\<close>

lemma Ffmpeg_getThumbnail_known:
  assumes "getItem (ffmpegCache m) i = Some item" "hasThumbs item"
  shows "Ffmpeg_getThumbnail env m w i t =
     (case tryGet (ffmpegCache m) i (roundedTimestamp (duration item) t) of
        (Some cachedThumb, c') \<Rightarrow> (Inr cachedThumb, m\<lparr>ffmpegCache := c'\<rparr>, w)
      | (None, c') \<Rightarrow>
          Ffmpeg_fileCacheOrGenerate env (m\<lparr>ffmpegCache := c'\<rparr>) w i
            (roundedTimestamp (duration item) t))"
  using assms by (simp add: Ffmpeg_getThumbnail_def Ffmpeg_getThumbnailCore_def Let_def)

lemma cache_same: "m\<lparr>ffmpegCache := ffmpegCache m\<rparr> = (m :: FfmpegThumbnailManager)"
  by simp

lemma Ffmpeg_getThumbnail_miss:
  assumes "getItem (ffmpegCache m) i = Some item" "hasThumbs item"
    and "entryAt (ffmpegCache m) i (roundedTimestamp (duration item) t) = None"
  shows "Ffmpeg_getThumbnail env m w i t =
          Ffmpeg_fileCacheOrGenerate env m w i (roundedTimestamp (duration item) t)"
  using assms(3) by (simp add: Ffmpeg_getThumbnail_known [OF assms(1,2)] tryGet_miss)

lemma mkdirSync_same: "mkdirSync w p = Inr w1 \<Longrightarrow> w1 = w"
  by (simp add: mkdirSync_def split: if_splits)

lemma generate_runs_ffmpeg:
  assumes "getItem (ffmpegCache m) i = Some item"
    and "\<not> existsSync w (saveFileOf env i ts)"
    and "mkdirSync (probed w) (savePathOf env i) = Inr w1"
  shows "Ffmpeg_fileCacheOrGenerate env m w i ts =
     (let call = \<lparr>seekArg = showInt ts @ ''ms'', inputArg = filePath item,
                  outputArg = saveFileOf env i ts, timeoutOpt = 10000\<rparr>;
          ran = ffmpeg env call (files w);
          w2 = (probed w)\<lparr>files := snd ran, execLog := execLog w @ [call]\<rparr>
      in case fst ran of
           Some failure \<Rightarrow> (Inl (SubprocessFailure failure), m, w2)
         | None \<Rightarrow>
             (case readFileSync w2 (saveFileOf env i ts) of
                Inl e \<Rightarrow> (Inl e, m, w2)
              | Inr buf \<Rightarrow> cacheThumbnail m w2 i ts buf))"
  using assms mkdirSync_same [OF assms(3)]
  by (simp add: Ffmpeg_fileCacheOrGenerate_def Let_def probed_def)

text \<open>
  Claim C5. With a cached duration of 60000 ms, a fetch for 60500 ms works with the
  timestamp 59000 (60500 rounded down to the 100 ms bucket, then limited to the duration
  less 1000 ms): 59000 is the key of the cache lookup, it names the cached file
  \<open>59000.jpg\<close>, and when neither cache has the frame, ffmpeg is run with \<open>-ss 59000ms\<close>.
\<close>

theorem scenario_B_on_demand_fetch:
  assumes item: "getItem (ffmpegCache m) metadataId = Some item"
    and thumbs: "hasThumbs item"
    and dur: "duration item = 60000"
  shows "roundedTimestamp (duration item) 60500 = 59000
   \<and> Ffmpeg_getThumbnail env m w metadataId 60500 =
       (case tryGet (ffmpegCache m) metadataId 59000 of
          (Some cachedThumb, c') \<Rightarrow> (Inr cachedThumb, m\<lparr>ffmpegCache := c'\<rparr>, w)
        | (None, c') \<Rightarrow>
            Ffmpeg_fileCacheOrGenerate env (m\<lparr>ffmpegCache := c'\<rparr>) w metadataId 59000)
   \<and> saveFileOf env metadataId 59000 = projectRoot env @ [''cache'', showInt metadataId, ''59000.jpg'']
   \<and> (entryAt (ffmpegCache m) metadataId 59000 = None
        \<and> \<not> existsSync w (saveFileOf env metadataId 59000)
        \<and> mkdirSync (probed w) (savePathOf env metadataId) = Inr w1
      \<longrightarrow> execLog (snd (snd (Ffmpeg_getThumbnail env m w metadataId 60500))) =
            execLog w @ [\<lparr>seekArg = ''59000ms'', inputArg = filePath item,
                          outputArg = saveFileOf env metadataId 59000, timeoutOpt = 10000\<rparr>])"
proof -
  have r: "roundedTimestamp (duration item) 60500 = 59000"
    by (simp add: dur roundedTimestamp_def)
  have g: "Ffmpeg_getThumbnail env m w metadataId 60500 =
       (case tryGet (ffmpegCache m) metadataId 59000 of
          (Some cachedThumb, c') \<Rightarrow> (Inr cachedThumb, m\<lparr>ffmpegCache := c'\<rparr>, w)
        | (None, c') \<Rightarrow>
            Ffmpeg_fileCacheOrGenerate env (m\<lparr>ffmpegCache := c'\<rparr>) w metadataId 59000)"
    unfolding Ffmpeg_getThumbnail_known [OF item thumbs] r ..
  have s: "saveFileOf env metadataId 59000 = projectRoot env @ [''cache'', showInt metadataId, ''59000.jpg'']"
    by (simp add: saveFileOf_def savePathOf_def show59000)
  have l: "execLog (snd (snd (Ffmpeg_getThumbnail env m w metadataId 60500))) =
            execLog w @ [\<lparr>seekArg = ''59000ms'', inputArg = filePath item,
                          outputArg = saveFileOf env metadataId 59000, timeoutOpt = 10000\<rparr>]"
    if miss: "entryAt (ffmpegCache m) metadataId 59000 = None"
      and nofile: "\<not> existsSync w (saveFileOf env metadataId 59000)"
      and mk: "mkdirSync (probed w) (savePathOf env metadataId) = Inr w1"
  proof -
    have "Ffmpeg_getThumbnail env m w metadataId 60500 =
            Ffmpeg_fileCacheOrGenerate env m w metadataId 59000"
      using Ffmpeg_getThumbnail_miss [OF item thumbs, of 60500 env w] miss r by simp
    then show ?thesis
      by (simp add: generate_runs_ffmpeg [OF item nofile mk] Let_def show59000 cacheThumbnail_def
          warn_def split: option.splits sum.splits prod.splits)
  qed
  from r g s l show ?thesis by blast
qed

lemma show_small: "showInt 1 = ''1''" "showInt 5000 = ''5000''"
  by (simp_all add: showInt_def showNat.simps digitChar_def)

lemma known_ffmpeg_item:
  "getItem (ffmpegCache knownFfmpegManager) 1 =
     Some \<lparr>hasThumbs = True, cachedThumbnails = Map.empty, filePath = [''media'', ''ep1.mkv''],
           duration = 60000\<rparr>"
  by (simp add: knownFfmpegManager_def exampleFfmpegManager_def ffmpeg_eval)

lemmas world_eval = probedWorld_def exampleWorld_def exampleBifPath_def existsSync_def
  saveFileOf_def savePathOf_def show_small show59000 mkdirSync_def probed_def

lemmas fetch_eval = Ffmpeg_getThumbnail_def Ffmpeg_getThumbnailCore_def Ffmpeg_fileCacheOrGenerate_def
  roundedTimestamp_def cacheThumbnail_def readFileSync_def warn_def Let_def

theorem scenario_B_on_demand_fetch_witness:
  "fst (Ffmpeg_getThumbnail exampleEnv knownFfmpegManager (probedWorld []) 1 60500) =
     Inr [0xFF, 0xD8, 0xFF, 0xD9]
   \<and> execLog (snd (snd (Ffmpeg_getThumbnail exampleEnv knownFfmpegManager (probedWorld []) 1 60500))) =
     [\<lparr>seekArg = ''59000ms'', inputArg = [''media'', ''ep1.mkv''],
       outputArg = [''app'', ''cache'', ''1'', ''59000.jpg''], timeoutOpt = 10000\<rparr>]
   \<and> entryAt (ffmpegCache (fst (snd (Ffmpeg_getThumbnail exampleEnv knownFfmpegManager
         (probedWorld []) 1 60500)))) 1 59000 =
     Some \<lparr>data = [0xFF, 0xD8, 0xFF, 0xD9], rank = 201\<rparr>"
proof -
  have miss: "entryAt (ffmpegCache knownFfmpegManager) 1 59000 = None"
    by (simp add: entryAt_def known_ffmpeg_item [unfolded getItem_def])
  have nofile: "\<not> existsSync (probedWorld []) (saveFileOf exampleEnv 1 59000)"
    by (simp add: world_eval exampleEnv_def)
  have mk: "mkdirSync (probed (probedWorld [])) (savePathOf exampleEnv 1) = Inr (probed (probedWorld []))"
    by (simp add: world_eval exampleEnv_def upt_rec)
  have sf: "saveFileOf exampleEnv 1 59000 = [''app'', ''cache'', ''1'', ''59000.jpg'']"
    by (simp add: world_eval exampleEnv_def)
  have thumbs: "hasThumbs \<lparr>hasThumbs = True, cachedThumbnails = Map.empty,
      filePath = [''media'', ''ep1.mkv''], duration = 60000\<rparr>"
    and dur: "duration \<lparr>hasThumbs = True, cachedThumbnails = Map.empty,
      filePath = [''media'', ''ep1.mkv''], duration = 60000\<rparr> = 60000"
    by simp_all
  note T = scenario_B_on_demand_fetch [OF known_ffmpeg_item thumbs dur, of exampleEnv "probedWorld []"
      "probed (probedWorld [])"]
  note logged_call = T [THEN conjunct2, THEN conjunct2, THEN conjunct2, rule_format,
      OF conjI [OF miss conjI [OF nofile mk]]]
  have log:
    "execLog (snd (snd (Ffmpeg_getThumbnail exampleEnv knownFfmpegManager (probedWorld []) 1 60500))) =
     [\<lparr>seekArg = ''59000ms'', inputArg = [''media'', ''ep1.mkv''],
       outputArg = [''app'', ''cache'', ''1'', ''59000.jpg''], timeoutOpt = 10000\<rparr>]"
    unfolding logged_call sf by (simp add: probedWorld_def exampleWorld_def)
  have run: "Ffmpeg_getThumbnail exampleEnv knownFfmpegManager (probedWorld []) 1 60500 =
      Ffmpeg_fileCacheOrGenerate exampleEnv knownFfmpegManager (probedWorld []) 1 59000"
    using Ffmpeg_getThumbnail_miss [OF known_ffmpeg_item thumbs, of 60500 exampleEnv "probedWorld []"]
      miss by (simp add: roundedTimestamp_def)
  have res: "fst (Ffmpeg_fileCacheOrGenerate exampleEnv knownFfmpegManager (probedWorld []) 1 59000) =
      Inr [0xFF, 0xD8, 0xFF, 0xD9]"
    by (subst generate_runs_ffmpeg [OF known_ffmpeg_item nofile mk])
      (simp add: Let_def sf exampleEnv_def readFileSync_def cacheThumbnail_def split: prod.splits)
  have ent: "entryAt (ffmpegCache (fst (snd (Ffmpeg_fileCacheOrGenerate exampleEnv knownFfmpegManager
      (probedWorld []) 1 59000)))) 1 59000 = Some \<lparr>data = [0xFF, 0xD8, 0xFF, 0xD9], rank = 201\<rparr>"
    by (subst generate_runs_ffmpeg [OF known_ffmpeg_item nofile mk])
      (simp add: Let_def sf exampleEnv_def readFileSync_def cacheThumbnail_def knownFfmpegManager_def
        exampleFfmpegManager_def ffmpeg_eval cache_eval split: prod.splits)
  from log res ent show ?thesis unfolding run by simp
qed

subsection \<open>A failing subprocess\<close>

text \<open>
  Claim C6, for what the manager itself does. When neither cache has the frame and the run
  of ffmpeg fails (timeout of 10000 ms, error exit, or no ffmpeg), the fetch throws that
  failure, and the manager with its in-memory cache is unchanged. The manager writes and
  removes no file: the files are exactly those the failed run left.
\<close>

theorem subprocess_failure_propagates:
  assumes item: "getItem (ffmpegCache m) metadataId = Some item"
    and thumbs: "hasThumbs item"
    and ts: "ts = roundedTimestamp (duration item) timestamp"
    and miss: "entryAt (ffmpegCache m) metadataId ts = None"
    and nofile: "\<not> existsSync w (saveFileOf env metadataId ts)"
    and mk: "mkdirSync (probed w) (savePathOf env metadataId) = Inr w1"
    and call: "call = \<lparr>seekArg = showInt ts @ ''ms'', inputArg = filePath item,
                         outputArg = saveFileOf env metadataId ts, timeoutOpt = 10000\<rparr>"
    and fails: "ffmpeg env call (files w) = (Some failure, files')"
  shows "Ffmpeg_getThumbnail env m w metadataId timestamp =
           (Inl (SubprocessFailure failure), m,
            (probed w)\<lparr>files := files', execLog := execLog w @ [call]\<rparr>)"
proof -
  have "Ffmpeg_getThumbnail env m w metadataId timestamp =
          Ffmpeg_fileCacheOrGenerate env m w metadataId ts"
    using Ffmpeg_getThumbnail_miss [OF item thumbs, of timestamp env w] miss ts by simp
  also have "\<dots> = (Inl (SubprocessFailure failure), m,
            (probed w)\<lparr>files := files', execLog := execLog w @ [call]\<rparr>)"
    using fails call by (simp add: generate_runs_ffmpeg [OF item nofile mk] Let_def)
  finally show ?thesis .
qed

theorem subprocess_failure_propagates_witness:
  "Ffmpeg_getThumbnail stallingEnv knownFfmpegManager (probedWorld []) 1 5000 =
     (Inl (SubprocessFailure TimedOut), knownFfmpegManager, stalledWorld)"
proof -
  have thumbs: "hasThumbs \<lparr>hasThumbs = True, cachedThumbnails = Map.empty,
      filePath = [''media'', ''ep1.mkv''], duration = 60000\<rparr>"
    by simp
  have ts: "5000 = roundedTimestamp (duration \<lparr>hasThumbs = True, cachedThumbnails = Map.empty,
      filePath = [''media'', ''ep1.mkv''], duration = 60000\<rparr>) 5000"
    by (simp add: roundedTimestamp_def)
  have miss: "entryAt (ffmpegCache knownFfmpegManager) 1 5000 = None"
    by (simp add: entryAt_def known_ffmpeg_item [unfolded getItem_def])
  have sf: "saveFileOf stallingEnv 1 5000 = [''app'', ''cache'', ''1'', ''5000.jpg'']"
    by (simp add: world_eval stallingEnv_def)
  have nofile: "\<not> existsSync (probedWorld []) (saveFileOf stallingEnv 1 5000)"
    by (simp add: world_eval stallingEnv_def)
  have mk: "mkdirSync (probed (probedWorld [])) (savePathOf stallingEnv 1) = Inr (probed (probedWorld []))"
    by (simp add: world_eval stallingEnv_def upt_rec)
  have fails: "ffmpeg stallingEnv
      \<lparr>seekArg = showInt 5000 @ ''ms'',
       inputArg = filePath \<lparr>hasThumbs = True, cachedThumbnails = Map.empty,
          filePath = [''media'', ''ep1.mkv''], duration = 60000\<rparr>,
       outputArg = saveFileOf stallingEnv 1 5000, timeoutOpt = 10000\<rparr>
      (files (probedWorld [])) =
      (Some TimedOut,
       (files (probedWorld []))([''app'', ''cache'', ''1'', ''5000.jpg''] \<mapsto>
          \<lparr>mtimeMs = 2000, contents = [0xFF, 0xD8]\<rparr>))"
    by (simp add: stallingEnv_def sf [unfolded stallingEnv_def])
  note T = subprocess_failure_propagates [OF known_ffmpeg_item thumbs ts miss nofile mk refl fails]
  show ?thesis
    unfolding T sf by (simp add: stalledWorld_def world_eval)
qed

text \<open>
  Claim C6 as stated also promises that the on-disk cache gains no entry. That is up to
  ffmpeg: with an ffmpeg that has written the start of its output when the timeout kills
  it, the fetch throws, the partial file stays under the name of the frame, and the next
  fetch of the same frame finds it with \<open>existsSync\<close>, returns its two bytes without running
  ffmpeg again and puts them into the in-memory cache.
\<close>

lemma afterStall_eq:
  "afterStall = (Inl (SubprocessFailure TimedOut), knownFfmpegManager, stalledWorld)"
proof -
  have none: "getItem (ffmpegCache exampleFfmpegManager) 1 = None"
    by (simp add: exampleFfmpegManager_def ffmpeg_eval)
  have "afterStall = Ffmpeg_getThumbnailCore stallingEnv knownFfmpegManager (probedWorld []) 1 5000"
    by (simp add: afterStall_def Ffmpeg_getThumbnail_def none example_ffmpeg_check)
  also have "\<dots> = Ffmpeg_getThumbnail stallingEnv knownFfmpegManager (probedWorld []) 1 5000"
    by (simp add: Ffmpeg_getThumbnail_def known_ffmpeg_item)
  also have "\<dots> = (Inl (SubprocessFailure TimedOut), knownFfmpegManager, stalledWorld)"
  proof -
    have miss: "entryAt (ffmpegCache knownFfmpegManager) 1 5000 = None"
      by (simp add: entryAt_def known_ffmpeg_item [unfolded getItem_def])
    have sf: "saveFileOf stallingEnv 1 5000 = [''app'', ''cache'', ''1'', ''5000.jpg'']"
      by (simp add: world_eval stallingEnv_def)
    have nofile: "\<not> existsSync (probedWorld []) (saveFileOf stallingEnv 1 5000)"
      by (simp add: world_eval stallingEnv_def)
    have mk: "mkdirSync (probed (probedWorld [])) (savePathOf stallingEnv 1) = Inr (probed (probedWorld []))"
      by (simp add: world_eval stallingEnv_def upt_rec)
    have thumbs: "hasThumbs \<lparr>hasThumbs = True, cachedThumbnails = Map.empty,
        filePath = [''media'', ''ep1.mkv''], duration = 60000\<rparr>"
      by simp
    have "Ffmpeg_getThumbnail stallingEnv knownFfmpegManager (probedWorld []) 1 5000 =
        Ffmpeg_fileCacheOrGenerate stallingEnv knownFfmpegManager (probedWorld []) 1 5000"
      using Ffmpeg_getThumbnail_miss [OF known_ffmpeg_item thumbs, of 5000 stallingEnv "probedWorld []"]
        miss by (simp add: roundedTimestamp_def)
    also have "\<dots> = (Inl (SubprocessFailure TimedOut), knownFfmpegManager, stalledWorld)"
      by (subst generate_runs_ffmpeg [OF known_ffmpeg_item nofile mk])
        (simp add: Let_def sf stallingEnv_def stalledWorld_def world_eval)
    finally show ?thesis .
  qed
  finally show ?thesis .
qed

theorem partial_file_served_counterexample:
  "fst afterStall = Inl (SubprocessFailure TimedOut)
   \<and> existsSync (exampleWorld []) (saveFileOf stallingEnv 1 5000) = False
   \<and> map_option contents (files (snd (snd afterStall)) (saveFileOf stallingEnv 1 5000)) = Some [0xFF, 0xD8]
   \<and> fst afterRetry = Inr [0xFF, 0xD8]
   \<and> execLog (snd (snd afterRetry)) = execLog (snd (snd afterStall))
   \<and> entryAt (ffmpegCache (fst (snd afterRetry))) 1 5000 = Some \<lparr>data = [0xFF, 0xD8], rank = 201\<rparr>"
proof -
  have sf: "saveFileOf stallingEnv 1 5000 = [''app'', ''cache'', ''1'', ''5000.jpg'']"
    by (simp add: world_eval stallingEnv_def)
  have before: "existsSync (exampleWorld []) (saveFileOf stallingEnv 1 5000) = False"
    unfolding sf by (simp add: world_eval)
  have left: "map_option contents (files stalledWorld (saveFileOf stallingEnv 1 5000)) = Some [0xFF, 0xD8]"
    unfolding sf by (simp add: stalledWorld_def)
  have retry: "afterRetry = Ffmpeg_getThumbnail stallingEnv knownFfmpegManager stalledWorld 1 5000"
    by (simp add: afterRetry_def afterStall_eq)
  have served: "fst (Ffmpeg_getThumbnail stallingEnv knownFfmpegManager stalledWorld 1 5000) = Inr [0xFF, 0xD8]"
    by (simp add: fetch_eval known_ffmpeg_item tryGet_def
        known_ffmpeg_item [unfolded getItem_def] sf existsSync_def probed_def stalledWorld_def
        split: prod.splits)
  have norun: "execLog (snd (snd (Ffmpeg_getThumbnail stallingEnv knownFfmpegManager stalledWorld 1 5000)))
      = execLog stalledWorld"
    by (simp add: fetch_eval known_ffmpeg_item tryGet_def
        known_ffmpeg_item [unfolded getItem_def] sf existsSync_def probed_def stalledWorld_def
        split: prod.splits)
  have cached: "entryAt (ffmpegCache (fst (snd (Ffmpeg_getThumbnail stallingEnv knownFfmpegManager
      stalledWorld 1 5000)))) 1 5000 = Some \<lparr>data = [0xFF, 0xD8], rank = 201\<rparr>"
    by (simp add: fetch_eval known_ffmpeg_item tryGet_def
        known_ffmpeg_item [unfolded getItem_def] sf existsSync_def probed_def stalledWorld_def
        knownFfmpegManager_def exampleFfmpegManager_def ffmpeg_eval cache_eval
        split: prod.splits)
  from before left served norun cached show ?thesis
    by (simp add: retry afterStall_eq)
qed

subsection \<open>Creating the manager twice\<close>

lemma Create_result:
  "Create env db mp s w =
     ((constructed s,
       if usePreciseThumbnails env then FfmpegManager (newFfmpegThumbnailManager db)
       else BifManager (newBifThumbnailManager db mp)),
      \<lparr>Instance = Some (constructed s,
          if usePreciseThumbnails env then FfmpegManager (newFfmpegThumbnailManager db)
          else BifManager (newBifThumbnailManager db mp)),
       constructed = Suc (constructed s)\<rparr>,
      if Instance s \<noteq> None then warn [WarnAlreadyInitialized] w else w)"
  by (simp add: Create_def Let_def)

text \<open>
  Claim C8, as the code has it. \<open>Create\<close> always constructs a new manager, of the class
  the configuration asks for at that moment and with an empty cache, makes it the active
  instance (the only one) and returns it. When an instance was active already, a warning is
  logged as well, and the new object is not the old one.
\<close>

theorem create_replaces_instance:
  assumes "Create env db metadataPath' s w = (made, s', w')"
  shows "Instance s' = Some made
   \<and> fst made = constructed s \<and> constructed s' = Suc (constructed s)
   \<and> snd made = (if usePreciseThumbnails env then FfmpegManager (newFfmpegThumbnailManager db)
                  else BifManager (newBifThumbnailManager db metadataPath'))
   \<and> managerItem (snd made) metadataId = None
   \<and> logged w' = logged w @ (if Instance s = None then [] else [WarnAlreadyInitialized])
   \<and> (Instance s = Some old \<and> fst old < constructed s \<longrightarrow> fst made \<noteq> fst old)"
  using assms
  by (auto simp: Create_result warn_def managerItem_def getItem_def newFfmpegThumbnailManager_def
      newBifThumbnailManager_def newCacheMap_def)

lemma firstCreate_eq:
  "firstCreate =
     ((0, FfmpegManager exampleFfmpegManager),
      \<lparr>Instance = Some (0, FfmpegManager exampleFfmpegManager), constructed = 1\<rparr>,
      exampleWorld [])"
  by (simp add: firstCreate_def Create_result exampleEnv_def exampleFfmpegManager_def)

lemma afterCheck_eq:
  "afterCheck =
     (Inr True, \<lparr>Instance = Some (0, FfmpegManager knownFfmpegManager), constructed = 1\<rparr>,
      probedWorld [])"
  by (simp add: afterCheck_def firstCreate_eq Thumbnails_hasThumbnails_def example_ffmpeg_check)

lemma secondCreate_eq:
  "secondCreate =
     ((1, FfmpegManager exampleFfmpegManager),
      \<lparr>Instance = Some (1, FfmpegManager exampleFfmpegManager), constructed = 2\<rparr>,
      warn [WarnAlreadyInitialized] (probedWorld []))"
  by (simp add: secondCreate_def afterCheck_eq Create_result exampleEnv_def exampleFfmpegManager_def)

theorem create_replaces_instance_witness:
  "Instance (fst (snd secondCreate)) = Some (fst secondCreate)
   \<and> fst (fst secondCreate) = 1
   \<and> managerItem (snd (fst secondCreate)) 1 = None
   \<and> logged (snd (snd secondCreate)) = [WarnAlreadyInitialized]"
proof -
  have made: "Create exampleEnv exampleDb [''plex''] (fst (snd afterCheck)) (snd (snd afterCheck)) =
      (fst secondCreate, fst (snd secondCreate), snd (snd secondCreate))"
    by (simp add: secondCreate_def)
  have old: "Instance (fst (snd afterCheck)) = Some (0, FfmpegManager knownFfmpegManager)
      \<and> fst (0::nat, FfmpegManager knownFfmpegManager) < constructed (fst (snd afterCheck))"
    by (simp add: afterCheck_eq)
  note T = create_replaces_instance [OF made, of 1 "(0, FfmpegManager knownFfmpegManager)"]
  note inst = T [THEN conjunct1]
    and serial = T [THEN conjunct2, THEN conjunct1]
    and fresh = T [THEN conjunct2, THEN conjunct2, THEN conjunct2, THEN conjunct2, THEN conjunct1]
    and log = T [THEN conjunct2, THEN conjunct2, THEN conjunct2, THEN conjunct2, THEN conjunct2,
        THEN conjunct1]
    and other = T [THEN conjunct2, THEN conjunct2, THEN conjunct2, THEN conjunct2, THEN conjunct2,
        THEN conjunct2, rule_format, OF old]
  from serial have one: "fst (fst secondCreate) = 1"
    by (simp add: afterCheck_eq)
  from log have warned: "logged (snd (snd secondCreate)) = [WarnAlreadyInitialized]"
    by (simp add: afterCheck_eq probedWorld_def exampleWorld_def)
  from inst one fresh warned other show ?thesis
    by simp
qed

text \<open>
  Claim C8 as stated says that the instance after a second \<open>Create\<close> is the one the first
  call produced. It is not: after \<open>Create\<close>, an existence check of episode 1 through the
  instance and a second \<open>Create\<close>, the warning is logged, but the active instance is a new
  object (serial 1, not 0) that has lost the item entry of episode 1.
\<close>

theorem create_twice_counterexample:
  "fst (fst firstCreate) = 0
   \<and> Instance (fst (snd afterCheck)) = Some (0, FfmpegManager knownFfmpegManager)
   \<and> map_option hasThumbs (instanceItem (fst (snd afterCheck)) 1) = Some True
   \<and> logged (snd (snd secondCreate)) = [WarnAlreadyInitialized]
   \<and> Instance (fst (snd secondCreate)) = Some (1, FfmpegManager exampleFfmpegManager)
   \<and> instanceItem (fst (snd secondCreate)) 1 = None
   \<and> map_option fst (Instance (fst (snd secondCreate))) \<noteq> Some (fst (fst firstCreate))"
  by (simp add: firstCreate_eq afterCheck_eq secondCreate_eq instanceItem_def managerItem_def
      known_ffmpeg_item [unfolded getItem_def] getItem_def exampleFfmpegManager_def
      newFfmpegThumbnailManager_def
      newCacheMap_def warn_def probedWorld_def exampleWorld_def MediaItemCache.truncate_def)

end
